theory Spec2Isabelle
  imports Complex_Main "HOL-Library.AList"
begin

section \<open>Entity model\<close>

text \<open>
  Modelled from the spec: the package \<open>schemas\<close> is known here only through its uses in
  \<open>pkg/exporter/store.go\<close> and \<open>pkg/store/redis_test.go\<close>. The records below
  hold the fields those two files read and write. For a Project the fields of
  \<open>ProjectParameters\<close> are the values returned by the accessor methods that
  \<open>store.go\<close> calls (\<open>p.Pull.Environments.NameRegexp()\<close>, \<open>p.OutputSparseStatusMetrics()\<close>, ...).
  Keys are the identifying tuples of section 3 of the spec, so key construction is pure
  and free of collisions.
\<close>

record ProjectParameters =
  OutputSparseStatusMetrics :: bool
  Pull_Environments_NameRegexp :: string
  Pull_Environments_TagsRegexp :: string
  Pull_Refs_Regexp :: string
  Pull_Pipeline_Jobs_Enabled :: bool
  Pull_Pipeline_Variables_Enabled :: bool
  Pull_Pipeline_Variables_Regexp :: string

record Project =
  Project_Name :: string
  Project_Parameters :: ProjectParameters

type_synonym ProjectKey = string

definition Project_Key :: "Project \<Rightarrow> ProjectKey" where
  "Project_Key p = Project_Name p"

record Environment =
  Environment_ProjectName :: string
  Environment_Name :: string
  Environment_ID :: int
  Environment_ExternalURL :: string
  Environment_OutputSparseStatusMetrics :: bool
  Environment_TagsRegexp :: string

datatype EnvironmentKey = EnvironmentKey string string

definition Environment_Key :: "Environment \<Rightarrow> EnvironmentKey" where
  "Environment_Key e = EnvironmentKey (Environment_ProjectName e) (Environment_Name e)"

text \<open>\<open>RefKind\<close> is a string type in the source: \<open>schemas.RefKind(m.Labels["kind"])\<close>
  converts any label value.\<close>

type_synonym RefKind = string

record Ref =
  Ref_Kind :: RefKind
  Ref_ProjectName :: string
  Ref_Name :: string
  Ref_OutputSparseStatusMetrics :: bool
  Ref_PullPipelineJobsEnabled :: bool
  Ref_PullPipelineVariablesEnabled :: bool
  Ref_PullPipelineVariablesRegexp :: string

datatype RefKey = RefKey RefKind string string

definition Ref_Key :: "Ref \<Rightarrow> RefKey" where
  "Ref_Key r = RefKey (Ref_Kind r) (Ref_ProjectName r) (Ref_Name r)"

text \<open>The kinds named in the sources, and \<open>MetricKindOther\<close> for the rest of the
  enumeration.\<close>

datatype MetricKind =
    MetricKindCoverage
  | MetricKindJobArtifactSizeBytes
  | MetricKindJobDurationSeconds
  | MetricKindJobID
  | MetricKindJobRunCount
  | MetricKindJobStatus
  | MetricKindJobTimestamp
  | MetricKindStatus
  | MetricKindOther nat

text \<open>A \<open>float64\<close>: the finite values, the infinities and NaN. \<open>float64_ne\<close> is the
  operator \<open>!=\<close> of Go, true whenever an operand is NaN.\<close>

datatype float64 = Finite real | PosInf | NegInf | NaN

definition float64_ne :: "float64 \<Rightarrow> float64 \<Rightarrow> bool" where
  "float64_ne x y = (x = NaN \<or> y = NaN \<or> x \<noteq> y)"

text \<open>\<open>prometheus.Labels\<close> is a \<open>map[string]string\<close>: an association list read with
  \<open>map_of\<close>. \<open>label_value\<close> is the first result of \<open>m.Labels[name]\<close> (the empty string for a
  missing name), \<open>label_exists\<close> the second.\<close>

type_synonym Labels = "(string \<times> string) list"

record Metric =
  Metric_Kind :: MetricKind
  Metric_Labels :: Labels
  Metric_Value :: float64

definition label_value :: "Labels \<Rightarrow> string \<Rightarrow> string" where
  "label_value ls n = (case map_of ls n of None \<Rightarrow> [] | Some v \<Rightarrow> v)"

definition label_exists :: "Labels \<Rightarrow> string \<Rightarrow> bool" where
  "label_exists ls n = (map_of ls n \<noteq> None)"

datatype MetricKey = MetricKey MetricKind Labels

definition Metric_Key :: "Metric \<Rightarrow> MetricKey" where
  "Metric_Key m = MetricKey (Metric_Kind m) (Metric_Labels m)"

section \<open>Errors, outcomes and the log\<close>

datatype error = StoreError | UpstreamError string

text \<open>How a Go function ends: it returns (a garbage collection pass returns \<open>nil\<close> or an
  error) or it panics. \<open>flow\<close> is how the body of a \<open>range\<close> loop ends: it runs to its end
  (\<open>Proceed\<close>, also the result of a block of the body that falls through to the next
  statement), it reaches a \<open>continue\<close>, or it leaves the function.\<close>

datatype 'a outcome = Return 'a | Panic

datatype flow = Proceed | Continue | Exit "error option outcome"

datatype log_level = InfoLevel | ErrorLevel

datatype log_value =
    LogString string
  | LogInt nat
  | LogKind MetricKind
  | LogLabels Labels
  | LogError error

type_synonym log_entry = "log_level \<times> string \<times> (string \<times> log_value) list"

section \<open>The store\<close>

text \<open>
  Modelled from the spec: the store backends of \<open>pkg/store\<close> are known here only through
  their tests. The state below is the contract of section 4.1: one mapping per entity type,
  \<open>Del\<close> removes a key, \<open>Set\<close> writes an entity under its own key, \<open>Exists\<close> tests a key, the
  listing returns the whole mapping, and \<open>Get\<close> changes its argument only when the key is
  found. A mapping is an association list, whose order is the order in which a \<open>range\<close>
  loop visits the listing.

  Every call may fail with a \<open>StoreError\<close>: \<open>faults\<close> is the schedule of the coming calls
  (\<open>True\<close>: the call fails and changes nothing; an exhausted schedule: no further failure).
  \<open>calls\<close> records every call made to the store, \<open>logs\<close> every log line written.
\<close>

datatype store_call =
    CallProjects
  | CallDelProject ProjectKey
  | CallProjectExists ProjectKey
  | CallGetProject ProjectKey
  | CallEnvironments
  | CallDelEnvironment EnvironmentKey
  | CallSetEnvironment Environment
  | CallRefs
  | CallDelRef RefKey
  | CallSetRef Ref
  | CallMetrics
  | CallDelMetric MetricKey
  | CallGetMetric MetricKey
  | CallSetMetric Metric

record State =
  projects :: "(ProjectKey \<times> Project) list"
  environments :: "(EnvironmentKey \<times> Environment) list"
  refs :: "(RefKey \<times> Ref) list"
  metrics :: "(MetricKey \<times> Metric) list"
  faults :: "bool list"
  calls :: "store_call list"
  logs :: "log_entry list"

definition store_do :: "store_call \<Rightarrow> (State \<Rightarrow> 'a \<times> State) \<Rightarrow> State \<Rightarrow> (error + 'a) \<times> State" where
  "store_do c f s =
     (let s1 = s\<lparr>faults := tl (faults s), calls := calls s @ [c]\<rparr>
      in case faults s of
           True # _ \<Rightarrow> (Inl StoreError, s1)
         | _ \<Rightarrow> (case f s1 of (a, s2) \<Rightarrow> (Inr a, s2)))"

definition store_Projects :: "State \<Rightarrow> (error + (ProjectKey \<times> Project) list) \<times> State" where
  "store_Projects = store_do CallProjects (\<lambda>s. (projects s, s))"

definition store_DelProject :: "ProjectKey \<Rightarrow> State \<Rightarrow> (error + unit) \<times> State" where
  "store_DelProject k =
     store_do (CallDelProject k) (\<lambda>s. ((), s\<lparr>projects := AList.delete k (projects s)\<rparr>))"

definition store_ProjectExists :: "ProjectKey \<Rightarrow> State \<Rightarrow> (error + bool) \<times> State" where
  "store_ProjectExists k =
     store_do (CallProjectExists k) (\<lambda>s. (map_of (projects s) k \<noteq> None, s))"

definition store_GetProject :: "Project \<Rightarrow> State \<Rightarrow> (error + Project) \<times> State" where
  "store_GetProject p =
     store_do (CallGetProject (Project_Key p))
       (\<lambda>s. (case map_of (projects s) (Project_Key p) of None \<Rightarrow> p | Some q \<Rightarrow> q, s))"

definition store_Environments ::
  "State \<Rightarrow> (error + (EnvironmentKey \<times> Environment) list) \<times> State" where
  "store_Environments = store_do CallEnvironments (\<lambda>s. (environments s, s))"

definition store_DelEnvironment :: "EnvironmentKey \<Rightarrow> State \<Rightarrow> (error + unit) \<times> State" where
  "store_DelEnvironment k =
     store_do (CallDelEnvironment k)
       (\<lambda>s. ((), s\<lparr>environments := AList.delete k (environments s)\<rparr>))"

definition store_SetEnvironment :: "Environment \<Rightarrow> State \<Rightarrow> (error + unit) \<times> State" where
  "store_SetEnvironment e =
     store_do (CallSetEnvironment e)
       (\<lambda>s. ((), s\<lparr>environments := AList.update (Environment_Key e) e (environments s)\<rparr>))"

definition store_Refs :: "State \<Rightarrow> (error + (RefKey \<times> Ref) list) \<times> State" where
  "store_Refs = store_do CallRefs (\<lambda>s. (refs s, s))"

definition store_DelRef :: "RefKey \<Rightarrow> State \<Rightarrow> (error + unit) \<times> State" where
  "store_DelRef k =
     store_do (CallDelRef k) (\<lambda>s. ((), s\<lparr>refs := AList.delete k (refs s)\<rparr>))"

definition store_SetRef :: "Ref \<Rightarrow> State \<Rightarrow> (error + unit) \<times> State" where
  "store_SetRef r =
     store_do (CallSetRef r) (\<lambda>s. ((), s\<lparr>refs := AList.update (Ref_Key r) r (refs s)\<rparr>))"

definition store_Metrics :: "State \<Rightarrow> (error + (MetricKey \<times> Metric) list) \<times> State" where
  "store_Metrics = store_do CallMetrics (\<lambda>s. (metrics s, s))"

definition store_DelMetric :: "MetricKey \<Rightarrow> State \<Rightarrow> (error + unit) \<times> State" where
  "store_DelMetric k =
     store_do (CallDelMetric k) (\<lambda>s. ((), s\<lparr>metrics := AList.delete k (metrics s)\<rparr>))"

definition store_GetMetric :: "Metric \<Rightarrow> State \<Rightarrow> (error + Metric) \<times> State" where
  "store_GetMetric m =
     store_do (CallGetMetric (Metric_Key m))
       (\<lambda>s. (case map_of (metrics s) (Metric_Key m) of None \<Rightarrow> m | Some q \<Rightarrow> q, s))"

definition store_SetMetric :: "Metric \<Rightarrow> State \<Rightarrow> (error + unit) \<times> State" where
  "store_SetMetric m =
     store_do (CallSetMetric m)
       (\<lambda>s. ((), s\<lparr>metrics := AList.update (Metric_Key m) m (metrics s)\<rparr>))"

definition log_write :: "log_level \<Rightarrow> string \<Rightarrow> (string \<times> log_value) list \<Rightarrow> State \<Rightarrow> State" where
  "log_write lvl msg fs s = s\<lparr>logs := logs s @ [(lvl, msg, fs)]\<rparr>"

section \<open>garbageCollectProjects\<close>

text \<open>The configuration snapshot read under \<open>cfgUpdateLock\<close>: the explicit projects and the
  wildcards. The type of a wildcard is left open; \<open>gitlabClient.ListProjects\<close> is the
  parameter \<open>lp\<close>.\<close>

record 'w Config =
  Projects :: "Project list"
  Wildcards :: "'w list"

text \<open>\<open>for _, p := range ps { delete(storedProjects, p.Key()) }\<close>\<close>

fun delete_keys :: "Project list \<Rightarrow> (ProjectKey \<times> Project) list \<Rightarrow> (ProjectKey \<times> Project) list" where
  "delete_keys [] sp = sp"
| "delete_keys (p # ps) sp = delete_keys ps (AList.delete (Project_Key p) sp)"

text \<open>The loop over \<open>config.Wildcards\<close>.\<close>

fun delete_wildcards ::
  "('w \<Rightarrow> error + Project list) \<Rightarrow> 'w list \<Rightarrow> (ProjectKey \<times> Project) list
   \<Rightarrow> error + (ProjectKey \<times> Project) list" where
  "delete_wildcards lp [] sp = Inr sp"
| "delete_wildcards lp (w # ws) sp =
     (case lp w of
        Inl err \<Rightarrow> Inl err
      | Inr foundProjects \<Rightarrow> delete_wildcards lp ws (delete_keys foundProjects sp))"

text \<open>The loop over what is left of \<open>storedProjects\<close>.\<close>

fun delete_stored :: "(ProjectKey \<times> Project) list \<Rightarrow> State \<Rightarrow> error option outcome \<times> State" where
  "delete_stored [] s = (Return None, s)"
| "delete_stored ((k, p) # rest) s =
     (case store_DelProject k s of
        (Inl err, s1) \<Rightarrow> (Return (Some err), s1)
      | (Inr _, s1) \<Rightarrow>
          delete_stored rest
            (log_write InfoLevel ''deleted project from the store''
               [(''project-name'', LogString (Project_Name p))] s1))"

definition garbageCollectProjects ::
  "'w Config \<Rightarrow> ('w \<Rightarrow> error + Project list) \<Rightarrow> State \<Rightarrow> error option outcome \<times> State" where
  "garbageCollectProjects config lp s =
     (case store_Projects s of
        (Inl err, s1) \<Rightarrow> (Return (Some err), s1)
      | (Inr storedProjects, s1) \<Rightarrow>
          (case delete_wildcards lp (Wildcards config) (delete_keys (Projects config) storedProjects) of
             Inl err \<Rightarrow> (Return (Some err), s1)
           | Inr stale \<Rightarrow>
               delete_stored stale
                 (log_write InfoLevel ''found projects to garbage collect''
                    [(''projects-count'', LogInt (length stale))] s1)))"

text \<open>The projects that the configuration still reaches: the explicit ones and those that
  the listing returns for a wildcard.\<close>

definition discovered :: "('w \<Rightarrow> error + Project list) \<Rightarrow> 'w list \<Rightarrow> Project list" where
  "discovered lp ws = concat (map (\<lambda>w. case lp w of Inl _ \<Rightarrow> [] | Inr found \<Rightarrow> found) ws)"

section \<open>garbageCollectEnvironments\<close>

text \<open>
  \<open>regexp.MustCompile\<close> belongs to the Go library: the parameter \<open>rc\<close> of the two passes
  below is \<open>regexp.Compile\<close>, \<open>None\<close> for a pattern that is not a regular expression (where
  \<open>MustCompile\<close> panics) and otherwise the predicate \<open>MatchString\<close> of the compiled
  expression. The parameter \<open>pp0\<close> holds what the accessor methods return for the literal
  \<open>schemas.Project{Name: n}\<close>, whose configuration is unset.
\<close>

type_synonym regexp_compile = "string \<Rightarrow> (string \<Rightarrow> bool) option"

definition Project_literal :: "ProjectParameters \<Rightarrow> string \<Rightarrow> Project" where
  "Project_literal pp0 n = \<lparr>Project_Name = n, Project_Parameters = pp0\<rparr>"

text \<open>The body of the loop over \<open>storedEnvironments\<close> (lines 62 to 120).\<close>

definition gcEnvironment ::
  "regexp_compile \<Rightarrow> ProjectParameters \<Rightarrow> EnvironmentKey \<Rightarrow> Environment \<Rightarrow> State \<Rightarrow> flow \<times> State" where
  "gcEnvironment rc pp0 k env s =
     (let p = Project_literal pp0 (Environment_ProjectName env) in
      case store_ProjectExists (Project_Key p) s of
        (Inl err, s1) \<Rightarrow> (Exit (Return (Some err)), s1)
      | (Inr projectExists, s1) \<Rightarrow>
          if \<not> projectExists then
            (case store_DelEnvironment k s1 of
               (Inl err, s2) \<Rightarrow> (Exit (Return (Some err)), s2)
             | (Inr _, s2) \<Rightarrow>
                 (Continue,
                  log_write InfoLevel ''deleted environment from the store''
                    [(''project-name'', LogString (Environment_ProjectName env)),
                     (''environment-name'', LogString (Environment_Name env)),
                     (''reason'', LogString ''non-existent-project'')] s2))
          else
            (case store_GetProject p s1 of
               (Inl err, s2) \<Rightarrow> (Exit (Return (Some err)), s2)
             | (Inr p, s2) \<Rightarrow>
                 (case rc (Pull_Environments_NameRegexp (Project_Parameters p)) of
                    None \<Rightarrow> (Exit Panic, s2)
                  | Some re \<Rightarrow>
                      if \<not> re (Environment_Name env) then
                        (case store_DelEnvironment k s2 of
                           (Inl err, s3) \<Rightarrow> (Exit (Return (Some err)), s3)
                         | (Inr _, s3) \<Rightarrow>
                             (Continue,
                              log_write InfoLevel ''deleted environment from the store''
                                [(''project-name'', LogString (Environment_ProjectName env)),
                                 (''environment-name'', LogString (Environment_Name env)),
                                 (''reason'', LogString ''environment-not-in-regexp'')] s3))
                      else if Environment_OutputSparseStatusMetrics env
                                \<noteq> OutputSparseStatusMetrics (Project_Parameters p)
                              \<or> Environment_TagsRegexp env
                                \<noteq> Pull_Environments_TagsRegexp (Project_Parameters p) then
                        (let env = env\<lparr>
                               Environment_OutputSparseStatusMetrics :=
                                 OutputSparseStatusMetrics (Project_Parameters p),
                               Environment_TagsRegexp :=
                                 Pull_Environments_TagsRegexp (Project_Parameters p)\<rparr>
                         in case store_SetEnvironment env s2 of
                              (Inl err, s3) \<Rightarrow> (Exit (Return (Some err)), s3)
                            | (Inr _, s3) \<Rightarrow>
                                (Proceed,
                                 log_write InfoLevel
                                   ''updated project ref, associated project configuration was not in sync''
                                   [(''project-name'', LogString (Environment_ProjectName env)),
                                    (''environment-name'', LogString (Environment_Name env))] s3))
                      else (Proceed, s2))))"

fun gcEnvironments_loop ::
  "regexp_compile \<Rightarrow> ProjectParameters \<Rightarrow> (EnvironmentKey \<times> Environment) list \<Rightarrow> State
   \<Rightarrow> error option outcome \<times> State" where
  "gcEnvironments_loop rc pp0 [] s = (Return None, s)"
| "gcEnvironments_loop rc pp0 ((k, env) # rest) s =
     (case gcEnvironment rc pp0 k env s of
        (Exit out, s1) \<Rightarrow> (out, s1)
      | (_, s1) \<Rightarrow> gcEnvironments_loop rc pp0 rest s1)"

definition garbageCollectEnvironments ::
  "regexp_compile \<Rightarrow> ProjectParameters \<Rightarrow> State \<Rightarrow> error option outcome \<times> State" where
  "garbageCollectEnvironments rc pp0 s =
     (case store_Environments s of
        (Inl err, s1) \<Rightarrow> (Return (Some err), s1)
      | (Inr storedEnvironments, s1) \<Rightarrow> gcEnvironments_loop rc pp0 storedEnvironments s1)"

section \<open>garbageCollectRefs\<close>

text \<open>The body of the loop over \<open>storedRefs\<close> (lines 153 to 210).\<close>

definition gcRef ::
  "regexp_compile \<Rightarrow> ProjectParameters \<Rightarrow> RefKey \<Rightarrow> Ref \<Rightarrow> State \<Rightarrow> flow \<times> State" where
  "gcRef rc pp0 k ref s =
     (let p = Project_literal pp0 (Ref_ProjectName ref) in
      case store_ProjectExists (Project_Key p) s of
        (Inl err, s1) \<Rightarrow> (Exit (Return (Some err)), s1)
      | (Inr projectExists, s1) \<Rightarrow>
          if \<not> projectExists then
            (case store_DelRef k s1 of
               (Inl err, s2) \<Rightarrow> (Exit (Return (Some err)), s2)
             | (Inr _, s2) \<Rightarrow>
                 (Continue,
                  log_write InfoLevel ''deleted project ref from the store''
                    [(''project-name'', LogString (Ref_ProjectName ref)),
                     (''project-ref'', LogString (Ref_Name ref)),
                     (''reason'', LogString ''non-existent-project'')] s2))
          else
            (case store_GetProject p s1 of
               (Inl err, s2) \<Rightarrow> (Exit (Return (Some err)), s2)
             | (Inr p, s2) \<Rightarrow>
                 (case rc (Pull_Refs_Regexp (Project_Parameters p)) of
                    None \<Rightarrow> (Exit Panic, s2)
                  | Some re \<Rightarrow>
                      if \<not> re (Ref_Name ref) then
                        (case store_DelRef k s2 of
                           (Inl err, s3) \<Rightarrow> (Exit (Return (Some err)), s3)
                         | (Inr _, s3) \<Rightarrow>
                             (Continue,
                              log_write InfoLevel ''deleted project ref from the store''
                                [(''project-name'', LogString (Ref_ProjectName ref)),
                                 (''project-ref'', LogString (Ref_Name ref)),
                                 (''reason'', LogString ''ref-not-in-regexp'')] s3))
                      else if Ref_OutputSparseStatusMetrics ref
                                \<noteq> OutputSparseStatusMetrics (Project_Parameters p)
                              \<or> Ref_PullPipelineJobsEnabled ref
                                \<noteq> Pull_Pipeline_Jobs_Enabled (Project_Parameters p)
                              \<or> Ref_PullPipelineVariablesEnabled ref
                                \<noteq> Pull_Pipeline_Variables_Enabled (Project_Parameters p)
                              \<or> Ref_PullPipelineVariablesRegexp ref
                                \<noteq> Pull_Pipeline_Variables_Regexp (Project_Parameters p) then
                        (let ref = ref\<lparr>
                               Ref_OutputSparseStatusMetrics :=
                                 OutputSparseStatusMetrics (Project_Parameters p),
                               Ref_PullPipelineJobsEnabled :=
                                 Pull_Pipeline_Jobs_Enabled (Project_Parameters p),
                               Ref_PullPipelineVariablesEnabled :=
                                 Pull_Pipeline_Variables_Enabled (Project_Parameters p),
                               Ref_PullPipelineVariablesRegexp :=
                                 Pull_Pipeline_Variables_Regexp (Project_Parameters p)\<rparr>
                         in case store_SetRef ref s2 of
                              (Inl err, s3) \<Rightarrow> (Exit (Return (Some err)), s3)
                            | (Inr _, s3) \<Rightarrow>
                                (Proceed,
                                 log_write InfoLevel
                                   ''updated project ref, associated project configuration was not in sync''
                                   [(''project-name'', LogString (Ref_ProjectName ref)),
                                    (''project-ref'', LogString (Ref_Name ref))] s3))
                      else (Proceed, s2))))"

fun gcRefs_loop ::
  "regexp_compile \<Rightarrow> ProjectParameters \<Rightarrow> (RefKey \<times> Ref) list \<Rightarrow> State
   \<Rightarrow> error option outcome \<times> State" where
  "gcRefs_loop rc pp0 [] s = (Return None, s)"
| "gcRefs_loop rc pp0 ((k, ref) # rest) s =
     (case gcRef rc pp0 k ref s of
        (Exit out, s1) \<Rightarrow> (out, s1)
      | (_, s1) \<Rightarrow> gcRefs_loop rc pp0 rest s1)"

definition garbageCollectRefs ::
  "regexp_compile \<Rightarrow> ProjectParameters \<Rightarrow> State \<Rightarrow> error option outcome \<times> State" where
  "garbageCollectRefs rc pp0 s =
     (case store_Refs s of
        (Inl err, s1) \<Rightarrow> (Return (Some err), s1)
      | (Inr storedRefs, s1) \<Rightarrow> gcRefs_loop rc pp0 storedRefs s1)"

section \<open>garbageCollectMetrics\<close>

text \<open>
  The pattern that the pass repeats at lines 242, 265, 287, 308 and 334:
  \<^verbatim>\<open>
  if err = store.DelMetric(k); err != nil { return err }
  log.WithFields(log.Fields{"metric-kind": m.Kind, "metric-labels": m.Labels,
    "reason": reason}).Info("deleted metric from the store")
  \<close>
  The result is the error returned, if any; what follows the pattern (a \<open>continue\<close> or
  nothing) is written at each place it is used.
\<close>

definition delete_metric :: "MetricKey \<Rightarrow> Metric \<Rightarrow> string \<Rightarrow> State \<Rightarrow> error option \<times> State" where
  "delete_metric k m reason s =
     (case store_DelMetric k s of
        (Inl err, s1) \<Rightarrow> (Some err, s1)
      | (Inr _, s1) \<Rightarrow>
          (None,
           log_write InfoLevel ''deleted metric from the store''
             [(''metric-kind'', LogKind (Metric_Kind m)),
              (''metric-labels'', LogLabels (Metric_Labels m)),
              (''reason'', LogString reason)] s1))"

text \<open>Lines 241 to 251: the check of the labels. No \<open>continue\<close> follows the deletion.\<close>

definition gcMetric_labels :: "MetricKey \<Rightarrow> Metric \<Rightarrow> State \<Rightarrow> flow \<times> State" where
  "gcMetric_labels k m s =
     (if \<not> label_exists (Metric_Labels m) ''project''
         \<or> (\<not> label_exists (Metric_Labels m) ''ref''
             \<and> \<not> label_exists (Metric_Labels m) ''environment'') then
        (case delete_metric k m ''project-or-ref-and-environment-label-undefined'' s of
           (Some err, s1) \<Rightarrow> (Exit (Return (Some err)), s1)
         | (None, s1) \<Rightarrow> (Proceed, s1))
      else (Proceed, s))"

text \<open>The key of the literal \<open>schemas.Ref{Kind: ..., ProjectName: ..., Name: ...}\<close> of line
  255, whose other fields have their zero values.\<close>

definition metric_refKey :: "Metric \<Rightarrow> RefKey" where
  "metric_refKey m =
     Ref_Key \<lparr>Ref_Kind = label_value (Metric_Labels m) ''kind'',
              Ref_ProjectName = label_value (Metric_Labels m) ''project'',
              Ref_Name = label_value (Metric_Labels m) ''ref'',
              Ref_OutputSparseStatusMetrics = False,
              Ref_PullPipelineJobsEnabled = False,
              Ref_PullPipelineVariablesEnabled = False,
              Ref_PullPipelineVariablesRegexp = []\<rparr>"

text \<open>Lines 253 to 322: the checks of a metric that has a \<open>ref\<close> label.\<close>

definition gcMetric_ref :: "(RefKey \<times> Ref) list \<Rightarrow> MetricKey \<Rightarrow> Metric \<Rightarrow> State \<Rightarrow> flow \<times> State" where
  "gcMetric_ref storedRefs k m s =
     (if label_exists (Metric_Labels m) ''ref'' then
        (case map_of storedRefs (metric_refKey m) of
           None \<Rightarrow>
             (case delete_metric k m ''non-existent-ref'' s of
                (Some err, s1) \<Rightarrow> (Exit (Return (Some err)), s1)
              | (None, s1) \<Rightarrow> (Continue, s1))
         | Some ref \<Rightarrow>
             if Metric_Kind m \<in> set [MetricKindJobArtifactSizeBytes, MetricKindJobDurationSeconds,
                                     MetricKindJobID, MetricKindJobRunCount, MetricKindJobStatus,
                                     MetricKindJobTimestamp]
                \<and> \<not> Ref_PullPipelineJobsEnabled ref then
               (case delete_metric k m ''jobs-metrics-disabled-on-project-ref'' s of
                  (Some err, s1) \<Rightarrow> (Exit (Return (Some err)), s1)
                | (None, s1) \<Rightarrow> (Continue, s1))
             else if Metric_Kind m \<in> set [MetricKindJobStatus, MetricKindStatus]
                     \<and> Ref_OutputSparseStatusMetrics ref
                     \<and> float64_ne (Metric_Value m) (Finite 1) then
               (case delete_metric k m ''output-sparse-metrics-enabled-on-project-ref'' s of
                  (Some err, s1) \<Rightarrow> (Exit (Return (Some err)), s1)
                | (None, s1) \<Rightarrow> (Continue, s1))
             else (Proceed, s))
      else (Proceed, s))"

text \<open>The key of the literal \<open>schemas.Environment{ProjectName: ..., Name: ...}\<close> of line 325.\<close>

definition metric_envKey :: "Metric \<Rightarrow> EnvironmentKey" where
  "metric_envKey m =
     Environment_Key \<lparr>Environment_ProjectName = label_value (Metric_Labels m) ''project'',
                      Environment_Name = label_value (Metric_Labels m) ''environment'',
                      Environment_ID = 0,
                      Environment_ExternalURL = [],
                      Environment_OutputSparseStatusMetrics = False,
                      Environment_TagsRegexp = []\<rparr>"

text \<open>Lines 324 to 345: the check of a metric that has an \<open>environment\<close> label.\<close>

definition gcMetric_environment ::
  "(EnvironmentKey \<times> Environment) list \<Rightarrow> MetricKey \<Rightarrow> Metric \<Rightarrow> State \<Rightarrow> flow \<times> State" where
  "gcMetric_environment storedEnvironments k m s =
     (if label_exists (Metric_Labels m) ''environment'' then
        (case map_of storedEnvironments (metric_envKey m) of
           None \<Rightarrow>
             (case delete_metric k m ''non-existent-environment'' s of
                (Some err, s1) \<Rightarrow> (Exit (Return (Some err)), s1)
              | (None, s1) \<Rightarrow> (Continue, s1))
         | Some _ \<Rightarrow> (Proceed, s))
      else (Proceed, s))"

text \<open>The body of the loop over \<open>storedMetrics\<close> (lines 234 to 346): the three blocks in
  sequence, where a \<open>continue\<close> or a \<open>return\<close> ends the body.\<close>

definition gcMetric ::
  "(EnvironmentKey \<times> Environment) list \<Rightarrow> (RefKey \<times> Ref) list \<Rightarrow> MetricKey \<Rightarrow> Metric \<Rightarrow> State
   \<Rightarrow> flow \<times> State" where
  "gcMetric storedEnvironments storedRefs k m s =
     (case gcMetric_labels k m s of
        (Proceed, s1) \<Rightarrow>
          (case gcMetric_ref storedRefs k m s1 of
             (Proceed, s2) \<Rightarrow> gcMetric_environment storedEnvironments k m s2
           | r \<Rightarrow> r)
      | r \<Rightarrow> r)"

fun gcMetrics_loop ::
  "(EnvironmentKey \<times> Environment) list \<Rightarrow> (RefKey \<times> Ref) list \<Rightarrow> (MetricKey \<times> Metric) list \<Rightarrow> State
   \<Rightarrow> error option outcome \<times> State" where
  "gcMetrics_loop storedEnvironments storedRefs [] s = (Return None, s)"
| "gcMetrics_loop storedEnvironments storedRefs ((k, m) # rest) s =
     (case gcMetric storedEnvironments storedRefs k m s of
        (Exit out, s1) \<Rightarrow> (out, s1)
      | (_, s1) \<Rightarrow> gcMetrics_loop storedEnvironments storedRefs rest s1)"

definition garbageCollectMetrics :: "State \<Rightarrow> error option outcome \<times> State" where
  "garbageCollectMetrics s =
     (case store_Environments s of
        (Inl err, s1) \<Rightarrow> (Return (Some err), s1)
      | (Inr storedEnvironments, s1) \<Rightarrow>
          (case store_Refs s1 of
             (Inl err, s2) \<Rightarrow> (Return (Some err), s2)
           | (Inr storedRefs, s2) \<Rightarrow>
               (case store_Metrics s2 of
                  (Inl err, s3) \<Rightarrow> (Return (Some err), s3)
                | (Inr storedMetrics, s3) \<Rightarrow>
                    gcMetrics_loop storedEnvironments storedRefs storedMetrics s3)))"

section \<open>The accessor wrappers\<close>

definition metricLogFields :: "Metric \<Rightarrow> (string \<times> log_value) list" where
  "metricLogFields m =
     [(''metric-kind'', LogKind (Metric_Kind m)), (''metric-labels'', LogLabels (Metric_Labels m))]"

text \<open>\<open>storeGetMetric\<close> takes a pointer: the metric it leaves behind is its result.\<close>

definition storeGetMetric :: "Metric \<Rightarrow> State \<Rightarrow> Metric outcome \<times> State" where
  "storeGetMetric m s =
     (case store_GetMetric m s of
        (Inl err, s1) \<Rightarrow>
          (Return m,
           log_write ErrorLevel ''reading metric from the store''
             (metricLogFields m @ [(''error'', LogError err)]) s1)
      | (Inr m1, s1) \<Rightarrow> (Return m1, s1))"

definition storeSetMetric :: "Metric \<Rightarrow> State \<Rightarrow> unit outcome \<times> State" where
  "storeSetMetric m s =
     (case store_SetMetric m s of
        (Inl err, s1) \<Rightarrow>
          (Return (),
           log_write ErrorLevel ''writing metric in the store''
             (metricLogFields m @ [(''error'', LogError err)]) s1)
      | (Inr _, s1) \<Rightarrow> (Return (), s1))"

definition storeDelMetric :: "Metric \<Rightarrow> State \<Rightarrow> unit outcome \<times> State" where
  "storeDelMetric m s =
     (case store_DelMetric (Metric_Key m) s of
        (Inl err, s1) \<Rightarrow>
          (Return (),
           log_write ErrorLevel ''deleting metric from the store''
             (metricLogFields m @ [(''error'', LogError err)]) s1)
      | (Inr _, s1) \<Rightarrow> (Return (), s1))"

section \<open>The networked backend: keepalives and the task queue\<close>

text \<open>
  Modelled from the spec: \<open>pkg/store/redis.go\<close> is known here only through its tests.
  The keys are those asserted by \<open>TestGetRedisKeepaliveKey\<close> and
  \<open>TestGetRedisQueueKey\<close>; \<open>SetKeepalive\<close>, \<open>KeepaliveExists\<close> and \<open>QueueTask\<close> follow section
  4.3 of the spec. A keepalive holds the instant at which it expires and is live before
  that instant; \<open>FastForward\<close> is the clock of the test server (\<open>mr.FastForward\<close>). A call
  is one atomic step, which fails with a \<open>StoreError\<close> where \<open>redis_faults\<close> says so and then
  changes nothing. A task type is the string that the queue key shows; the one of
  \<open>TaskTypePullMetrics\<close> is not asserted by any test and is written after the other. The
  counters are natural numbers: no test comes near the bound of a \<open>uint64\<close>.
\<close>

type_synonym TaskType = string

definition TaskTypePullMetrics :: TaskType where
  "TaskTypePullMetrics = ''PullMetrics''"

definition TaskTypeGarbageCollectEnvironments :: TaskType where
  "TaskTypeGarbageCollectEnvironments = ''GarbageCollectEnvironments''"

definition getRedisKeepaliveKey :: "string \<Rightarrow> string" where
  "getRedisKeepaliveKey uuid = ''keepalive:'' @ uuid"

definition getRedisQueueKey :: "TaskType \<Rightarrow> string \<Rightarrow> string" where
  "getRedisQueueKey tt taskUUID = ''task:'' @ tt @ '':'' @ taskUUID"

record Redis =
  keepalives :: "(string \<times> nat) list"
  tasks :: "(string \<times> string) list"
  tasksExecutedCount :: nat
  clock :: nat
  redis_faults :: "bool list"

definition redis_do :: "(Redis \<Rightarrow> 'a \<times> Redis) \<Rightarrow> Redis \<Rightarrow> (error + 'a) \<times> Redis" where
  "redis_do f r =
     (let r1 = r\<lparr>redis_faults := tl (redis_faults r)\<rparr>
      in case redis_faults r of
           True # _ \<Rightarrow> (Inl StoreError, r1)
         | _ \<Rightarrow> (case f r1 of (a, r2) \<Rightarrow> (Inr a, r2)))"

definition FastForward :: "nat \<Rightarrow> Redis \<Rightarrow> Redis" where
  "FastForward d r = r\<lparr>clock := clock r + d\<rparr>"

definition keepalive_live :: "Redis \<Rightarrow> string \<Rightarrow> bool" where
  "keepalive_live r uuid =
     (case map_of (keepalives r) (getRedisKeepaliveKey uuid) of
        None \<Rightarrow> False
      | Some expiry \<Rightarrow> clock r < expiry)"

definition SetKeepalive :: "string \<Rightarrow> nat \<Rightarrow> Redis \<Rightarrow> (error + bool) \<times> Redis" where
  "SetKeepalive uuid ttl =
     redis_do (\<lambda>r.
       if keepalive_live r uuid then (False, r)
       else (True,
             r\<lparr>keepalives :=
                 AList.update (getRedisKeepaliveKey uuid) (clock r + ttl) (keepalives r)\<rparr>))"

definition KeepaliveExists :: "string \<Rightarrow> Redis \<Rightarrow> (error + bool) \<times> Redis" where
  "KeepaliveExists uuid = redis_do (\<lambda>r. (keepalive_live r uuid, r))"

text \<open>Section 4.3, steps 1 to 3: no entry, claim; an entry whose controller is live, leave
  it; an entry whose controller has expired, steal it.\<close>

definition QueueTask :: "TaskType \<Rightarrow> string \<Rightarrow> string \<Rightarrow> Redis \<Rightarrow> (error + bool) \<times> Redis" where
  "QueueTask tt taskUUID processUUID =
     redis_do (\<lambda>r.
       let k = getRedisQueueKey tt taskUUID in
       case map_of (tasks r) k of
         None \<Rightarrow> (True, r\<lparr>tasks := AList.update k processUUID (tasks r)\<rparr>)
       | Some owner \<Rightarrow>
           if keepalive_live r owner then (False, r)
           else (True, r\<lparr>tasks := AList.update k processUUID (tasks r)\<rparr>))"

text \<open>
  Modelled from the spec: \<open>Redis.UnqueueTask\<close>, of which only the tests are known here.
  It deletes the entry and counts the task as executed (section 4.3). The counter moves
  only when an entry was deleted: \<open>TestRedisExecutedTasksCount\<close> unqueues the same task
  twice and asserts a count of one.
\<close>

definition UnqueueTask :: "TaskType \<Rightarrow> string \<Rightarrow> Redis \<Rightarrow> (error + unit) \<times> Redis" where
  "UnqueueTask tt taskUUID =
     redis_do (\<lambda>r.
       let k = getRedisQueueKey tt taskUUID in
       case map_of (tasks r) k of
         None \<Rightarrow> ((), r)
       | Some _ \<Rightarrow>
           ((), r\<lparr>tasks := AList.delete k (tasks r),
                  tasksExecutedCount := tasksExecutedCount r + 1\<rparr>))"

text \<open>Modelled from the spec: \<open>UnqueueTask\<close> as section 8 words it, where the counter moves
  at every call. It is compared with \<open>TestRedisExecutedTasksCount\<close> below.\<close>

definition UnqueueTask_spec :: "TaskType \<Rightarrow> string \<Rightarrow> Redis \<Rightarrow> (error + unit) \<times> Redis" where
  "UnqueueTask_spec tt taskUUID =
     redis_do (\<lambda>r.
       ((), r\<lparr>tasks := AList.delete (getRedisQueueKey tt taskUUID) (tasks r),
              tasksExecutedCount := tasksExecutedCount r + 1\<rparr>))"

definition CurrentlyQueuedTasksCount :: "Redis \<Rightarrow> (error + nat) \<times> Redis" where
  "CurrentlyQueuedTasksCount = redis_do (\<lambda>r. (length (remdups (map fst (tasks r))), r))"

definition ExecutedTasksCount :: "Redis \<Rightarrow> (error + nat) \<times> Redis" where
  "ExecutedTasksCount = redis_do (\<lambda>r. (tasksExecutedCount r, r))"

text \<open>The server that \<open>newTestRedisStore\<close> starts: empty, reachable.\<close>

definition newTestRedisStore :: Redis where
  "newTestRedisStore =
     \<lparr>keepalives = [], tasks = [], tasksExecutedCount = 0, clock = 0, redis_faults = []\<rparr>"

section \<open>The conditions of the specification\<close>

text \<open>A metric is malformed when it lacks the \<open>project\<close> label, or both the \<open>ref\<close> and the
  \<open>environment\<close> label.\<close>

definition labels_malformed :: "Metric \<Rightarrow> bool" where
  "labels_malformed m =
     (\<not> label_exists (Metric_Labels m) ''project''
      \<or> (\<not> label_exists (Metric_Labels m) ''ref'' \<and> \<not> label_exists (Metric_Labels m) ''environment''))"

text \<open>The three conditions under which a metric with a \<open>ref\<close> label is stale: the key made
  of its \<open>kind\<close>, \<open>project\<close> and \<open>ref\<close> labels resolves to no stored Ref; or the Ref has the
  jobs disabled and the metric is of a job kind; or the Ref has sparse status metrics, the
  metric is a status and its value is not 1.\<close>

definition ref_label_stale :: "(RefKey \<times> Ref) list \<Rightarrow> Metric \<Rightarrow> bool" where
  "ref_label_stale storedRefs m =
     (case map_of storedRefs
             (RefKey (label_value (Metric_Labels m) ''kind'')
                     (label_value (Metric_Labels m) ''project'')
                     (label_value (Metric_Labels m) ''ref'')) of
        None \<Rightarrow> True
      | Some ref \<Rightarrow>
          (\<not> Ref_PullPipelineJobsEnabled ref
           \<and> Metric_Kind m \<in> {MetricKindJobArtifactSizeBytes, MetricKindJobDurationSeconds,
                MetricKindJobID, MetricKindJobRunCount, MetricKindJobStatus, MetricKindJobTimestamp})
          \<or> (Ref_OutputSparseStatusMetrics ref
              \<and> Metric_Kind m \<in> {MetricKindJobStatus, MetricKindStatus}
              \<and> Metric_Value m \<noteq> Finite 1))"

text \<open>What a pass leaves of a stored environment, in the order of the checks: nothing
  when the owning project is not in the store; nothing when the name fails the pattern of
  the project; otherwise the environment with its two cached fields at the current values
  of the project (which is the environment itself when it is in sync).\<close>

definition environment_after ::
  "regexp_compile \<Rightarrow> (ProjectKey \<times> Project) list \<Rightarrow> Environment \<Rightarrow> Environment option" where
  "environment_after rc ps env =
     (case map_of ps (Environment_ProjectName env) of
        None \<Rightarrow> None
      | Some p \<Rightarrow>
          (case rc (Pull_Environments_NameRegexp (Project_Parameters p)) of
             None \<Rightarrow> None
           | Some re \<Rightarrow>
               if \<not> re (Environment_Name env) then None
               else Some (env\<lparr>Environment_OutputSparseStatusMetrics :=
                                 OutputSparseStatusMetrics (Project_Parameters p),
                               Environment_TagsRegexp :=
                                 Pull_Environments_TagsRegexp (Project_Parameters p)\<rparr>)))"

text \<open>The calls that the pass makes for one stored environment, in their order: the
  existence of the project, then either the deletion, or the reading of the project
  followed by the deletion when the name fails the pattern, by the writing of the refreshed
  environment when a cached field differs, by nothing when it is in sync.\<close>

definition environment_calls ::
  "regexp_compile \<Rightarrow> (ProjectKey \<times> Project) list \<Rightarrow> EnvironmentKey \<Rightarrow> Environment
   \<Rightarrow> store_call list" where
  "environment_calls rc ps k env =
     (case map_of ps (Environment_ProjectName env) of
        None \<Rightarrow> [CallProjectExists (Environment_ProjectName env), CallDelEnvironment k]
      | Some p \<Rightarrow>
          (case rc (Pull_Environments_NameRegexp (Project_Parameters p)) of
             None \<Rightarrow>
               [CallProjectExists (Environment_ProjectName env),
                CallGetProject (Environment_ProjectName env)]
           | Some re \<Rightarrow>
               if \<not> re (Environment_Name env) then
                 [CallProjectExists (Environment_ProjectName env),
                  CallGetProject (Environment_ProjectName env), CallDelEnvironment k]
               else if Environment_OutputSparseStatusMetrics env
                         \<noteq> OutputSparseStatusMetrics (Project_Parameters p)
                       \<or> Environment_TagsRegexp env
                         \<noteq> Pull_Environments_TagsRegexp (Project_Parameters p) then
                 [CallProjectExists (Environment_ProjectName env),
                  CallGetProject (Environment_ProjectName env),
                  CallSetEnvironment
                    (env\<lparr>Environment_OutputSparseStatusMetrics :=
                            OutputSparseStatusMetrics (Project_Parameters p),
                          Environment_TagsRegexp :=
                            Pull_Environments_TagsRegexp (Project_Parameters p)\<rparr>)]
               else
                 [CallProjectExists (Environment_ProjectName env),
                  CallGetProject (Environment_ProjectName env)]))"

text \<open>What these calls do to the mapping of the environments.\<close>

definition environment_apply ::
  "regexp_compile \<Rightarrow> (ProjectKey \<times> Project) list \<Rightarrow> EnvironmentKey \<Rightarrow> Environment
   \<Rightarrow> (EnvironmentKey \<times> Environment) list \<Rightarrow> (EnvironmentKey \<times> Environment) list" where
  "environment_apply rc ps k env es =
     (case environment_after rc ps env of
        None \<Rightarrow> AList.delete k es
      | Some env' \<Rightarrow> if env' = env then es else AList.update (Environment_Key env') env' es)"

text \<open>The same for a stored ref, with the pattern of the refs and the four cached fields.\<close>

definition ref_after ::
  "regexp_compile \<Rightarrow> (ProjectKey \<times> Project) list \<Rightarrow> Ref \<Rightarrow> Ref option" where
  "ref_after rc ps ref =
     (case map_of ps (Ref_ProjectName ref) of
        None \<Rightarrow> None
      | Some p \<Rightarrow>
          (case rc (Pull_Refs_Regexp (Project_Parameters p)) of
             None \<Rightarrow> None
           | Some re \<Rightarrow>
               if \<not> re (Ref_Name ref) then None
               else Some (ref\<lparr>Ref_OutputSparseStatusMetrics := OutputSparseStatusMetrics (Project_Parameters p),
                   Ref_PullPipelineJobsEnabled := Pull_Pipeline_Jobs_Enabled (Project_Parameters p),
                   Ref_PullPipelineVariablesEnabled :=
                     Pull_Pipeline_Variables_Enabled (Project_Parameters p),
                   Ref_PullPipelineVariablesRegexp :=
                     Pull_Pipeline_Variables_Regexp (Project_Parameters p)\<rparr>)))"

definition ref_calls ::
  "regexp_compile \<Rightarrow> (ProjectKey \<times> Project) list \<Rightarrow> RefKey \<Rightarrow> Ref
   \<Rightarrow> store_call list" where
  "ref_calls rc ps k ref =
     (case map_of ps (Ref_ProjectName ref) of
        None \<Rightarrow> [CallProjectExists (Ref_ProjectName ref), CallDelRef k]
      | Some p \<Rightarrow>
          (case rc (Pull_Refs_Regexp (Project_Parameters p)) of
             None \<Rightarrow>
               [CallProjectExists (Ref_ProjectName ref),
                CallGetProject (Ref_ProjectName ref)]
           | Some re \<Rightarrow>
               if \<not> re (Ref_Name ref) then
                 [CallProjectExists (Ref_ProjectName ref),
                  CallGetProject (Ref_ProjectName ref), CallDelRef k]
               else if Ref_OutputSparseStatusMetrics ref \<noteq> OutputSparseStatusMetrics (Project_Parameters p)
                       \<or> Ref_PullPipelineJobsEnabled ref
                         \<noteq> Pull_Pipeline_Jobs_Enabled (Project_Parameters p)
                       \<or> Ref_PullPipelineVariablesEnabled ref
                         \<noteq> Pull_Pipeline_Variables_Enabled (Project_Parameters p)
                       \<or> Ref_PullPipelineVariablesRegexp ref
                         \<noteq> Pull_Pipeline_Variables_Regexp (Project_Parameters p) then
                 [CallProjectExists (Ref_ProjectName ref),
                  CallGetProject (Ref_ProjectName ref),
                  CallSetRef
                    (ref\<lparr>Ref_OutputSparseStatusMetrics := OutputSparseStatusMetrics (Project_Parameters p),
                   Ref_PullPipelineJobsEnabled := Pull_Pipeline_Jobs_Enabled (Project_Parameters p),
                   Ref_PullPipelineVariablesEnabled :=
                     Pull_Pipeline_Variables_Enabled (Project_Parameters p),
                   Ref_PullPipelineVariablesRegexp :=
                     Pull_Pipeline_Variables_Regexp (Project_Parameters p)\<rparr>)]
               else
                 [CallProjectExists (Ref_ProjectName ref),
                  CallGetProject (Ref_ProjectName ref)]))"

definition ref_apply ::
  "regexp_compile \<Rightarrow> (ProjectKey \<times> Project) list \<Rightarrow> RefKey \<Rightarrow> Ref
   \<Rightarrow> (RefKey \<times> Ref) list \<Rightarrow> (RefKey \<times> Ref) list" where
  "ref_apply rc ps k ref es =
     (case ref_after rc ps ref of
        None \<Rightarrow> AList.delete k es
      | Some ref' \<Rightarrow> if ref' = ref then es else AList.update (Ref_Key ref') ref' es)"

text \<open>The deletions that the pass makes for one stored metric, each by the reason it logs: one
  when the metric is malformed; then one by the checks of the \<open>ref\<close> label when the metric
  has that label and is stale, or else one when it has an \<open>environment\<close> label that
  resolves to no stored Environment.\<close>

definition ref_label_reason :: "(RefKey \<times> Ref) list \<Rightarrow> Metric \<Rightarrow> string" where
  "ref_label_reason storedRefs m =
     (case map_of storedRefs
             (RefKey (label_value (Metric_Labels m) ''kind'')
                     (label_value (Metric_Labels m) ''project'')
                     (label_value (Metric_Labels m) ''ref'')) of
        None \<Rightarrow> ''non-existent-ref''
      | Some ref \<Rightarrow>
          if \<not> Ref_PullPipelineJobsEnabled ref
             \<and> Metric_Kind m \<in> {MetricKindJobArtifactSizeBytes, MetricKindJobDurationSeconds,
                  MetricKindJobID, MetricKindJobRunCount, MetricKindJobStatus, MetricKindJobTimestamp}
          then ''jobs-metrics-disabled-on-project-ref''
          else ''output-sparse-metrics-enabled-on-project-ref'')"

definition metric_deletions ::
  "(EnvironmentKey \<times> Environment) list \<Rightarrow> (RefKey \<times> Ref) list \<Rightarrow> Metric \<Rightarrow> string list" where
  "metric_deletions storedEnvironments storedRefs m =
     (if labels_malformed m then [''project-or-ref-and-environment-label-undefined''] else [])
     @ (if label_exists (Metric_Labels m) ''ref'' \<and> ref_label_stale storedRefs m
        then [ref_label_reason storedRefs m]
        else if label_exists (Metric_Labels m) ''environment''
                \<and> map_of storedEnvironments (metric_envKey m) = None
        then [''non-existent-environment'']
        else [])"

definition metric_log_line :: "Metric \<Rightarrow> string \<Rightarrow> log_entry" where
  "metric_log_line m reason =
     (InfoLevel, ''deleted metric from the store'',
      [(''metric-kind'', LogKind (Metric_Kind m)),
       (''metric-labels'', LogLabels (Metric_Labels m)),
       (''reason'', LogString reason)])"

text \<open>The reasons that the checks of the \<open>ref\<close> label log, and no other check.\<close>

definition ref_label_reasons :: "string list" where
  "ref_label_reasons =
     [''non-existent-ref'', ''jobs-metrics-disabled-on-project-ref'',
      ''output-sparse-metrics-enabled-on-project-ref'']"

text \<open>The calls of \<open>DelMetric\<close> and the log lines of a pass over a listing of metrics.\<close>

definition metrics_calls ::
  "(EnvironmentKey \<times> Environment) list \<Rightarrow> (RefKey \<times> Ref) list \<Rightarrow> (MetricKey \<times> Metric) list
   \<Rightarrow> store_call list" where
  "metrics_calls storedEnvironments storedRefs xs =
     concat (map (\<lambda>(k, m). map (\<lambda>reason. CallDelMetric k)
                               (metric_deletions storedEnvironments storedRefs m)) xs)"

definition metrics_logs ::
  "(EnvironmentKey \<times> Environment) list \<Rightarrow> (RefKey \<times> Ref) list \<Rightarrow> (MetricKey \<times> Metric) list
   \<Rightarrow> log_entry list" where
  "metrics_logs storedEnvironments storedRefs xs =
     concat (map (\<lambda>(k, m). map (metric_log_line m)
                               (metric_deletions storedEnvironments storedRefs m)) xs)"

section \<open>Scenarios\<close>

text \<open>The concrete values at which the theorems below are instantiated. \<open>literal_compile\<close>
  stands for \<open>regexp.Compile\<close> on three kinds of pattern: \<open>[\<close> is not a regular expression,
  \<open>.*\<close> matches every name, and any other pattern is read as an anchored literal.\<close>

definition literal_compile :: regexp_compile where
  "literal_compile pat =
     (if pat = ''['' then None else Some (\<lambda>name. pat = ''.*'' \<or> name = pat))"

definition unset_parameters :: ProjectParameters where
  "unset_parameters =
     \<lparr>OutputSparseStatusMetrics = False, Pull_Environments_NameRegexp = ''.*'',
      Pull_Environments_TagsRegexp = ''.*'', Pull_Refs_Regexp = ''.*'',
      Pull_Pipeline_Jobs_Enabled = False, Pull_Pipeline_Variables_Enabled = False,
      Pull_Pipeline_Variables_Regexp = ''.*''\<rparr>"

definition project_ab :: Project where
  "project_ab =
     \<lparr>Project_Name = ''a/b'',
      Project_Parameters =
        \<lparr>OutputSparseStatusMetrics = True, Pull_Environments_NameRegexp = ''prod'',
         Pull_Environments_TagsRegexp = ''.*'', Pull_Refs_Regexp = ''main'',
         Pull_Pipeline_Jobs_Enabled = True, Pull_Pipeline_Variables_Enabled = False,
         Pull_Pipeline_Variables_Regexp = ''.*''\<rparr>\<rparr>"

definition project_cd :: Project where
  "project_cd =
     \<lparr>Project_Name = ''c/d'',
      Project_Parameters =
        unset_parameters\<lparr>Pull_Environments_NameRegexp := ''['', Pull_Refs_Regexp := ''[''\<rparr>\<rparr>"

definition project_ef :: Project where
  "project_ef = \<lparr>Project_Name = ''e/f'', Project_Parameters = unset_parameters\<rparr>"

definition environment_of :: "string \<Rightarrow> string \<Rightarrow> Environment" where
  "environment_of pn n =
     \<lparr>Environment_ProjectName = pn, Environment_Name = n, Environment_ID = 1,
      Environment_ExternalURL = [], Environment_OutputSparseStatusMetrics = False,
      Environment_TagsRegexp = []\<rparr>"

definition ref_of :: "string \<Rightarrow> string \<Rightarrow> Ref" where
  "ref_of pn n =
     \<lparr>Ref_Kind = ''branch'', Ref_ProjectName = pn, Ref_Name = n,
      Ref_OutputSparseStatusMetrics = False, Ref_PullPipelineJobsEnabled = False,
      Ref_PullPipelineVariablesEnabled = False, Ref_PullPipelineVariablesRegexp = []\<rparr>"

definition empty_store :: State where
  "empty_store =
     \<lparr>projects = [], environments = [], refs = [], metrics = [], faults = [], calls = [],
      logs = []\<rparr>"

text \<open>The scenario of section 8 of the spec for the projects: \<open>a/b\<close> is configured, \<open>e/f\<close> is
  found by a wildcard, \<open>c/d\<close> is neither.\<close>

definition scenario_config :: "string Config" where
  "scenario_config = \<lparr>Projects = [project_ab], Wildcards = [''e/*'']\<rparr>"

definition scenario_ListProjects :: "string \<Rightarrow> error + Project list" where
  "scenario_ListProjects w = Inr [project_ef]"

definition scenario_store :: State where
  "scenario_store =
     empty_store\<lparr>projects := [(''a/b'', project_ab), (''c/d'', project_cd), (''e/f'', project_ef)]\<rparr>"

text \<open>The metrics of section 8 of the spec: a job status on \<open>main\<close>, whose Ref has the jobs
  disabled, and a metric with no \<open>project\<close> label.\<close>

definition metric_job_status :: Metric where
  "metric_job_status =
     \<lparr>Metric_Kind = MetricKindJobStatus,
      Metric_Labels = [(''project'', ''p''), (''kind'', ''branch''), (''ref'', ''main'')],
      Metric_Value = Finite 1\<rparr>"

definition metric_no_project :: Metric where
  "metric_no_project =
     \<lparr>Metric_Kind = MetricKindCoverage, Metric_Labels = [(''ref'', ''main'')],
      Metric_Value = Finite 5\<rparr>"

text \<open>A store for each pass. The environments and the refs: one whose project is not
  stored, one whose name fails the pattern, one out of sync and one in sync. The metrics:
  the job status above, a coverage on the same ref, and the metric with no \<open>project\<close>
  label; the Ref of \<open>main\<close> has the jobs disabled.\<close>

definition scenario_environments :: "(EnvironmentKey \<times> Environment) list" where
  "scenario_environments =
     [(EnvironmentKey ''x/y'' ''prod'', environment_of ''x/y'' ''prod''),
      (EnvironmentKey ''a/b'' ''dev'', environment_of ''a/b'' ''dev''),
      (EnvironmentKey ''a/b'' ''prod'', environment_of ''a/b'' ''prod''),
      (EnvironmentKey ''e/f'' ''staging'',
       (environment_of ''e/f'' ''staging'')\<lparr>Environment_TagsRegexp := ''.*''\<rparr>)]"

definition scenario_refs :: "(RefKey \<times> Ref) list" where
  "scenario_refs =
     [(RefKey ''branch'' ''x/y'' ''main'', ref_of ''x/y'' ''main''),
      (RefKey ''branch'' ''a/b'' ''dev'', ref_of ''a/b'' ''dev''),
      (RefKey ''branch'' ''a/b'' ''main'', ref_of ''a/b'' ''main''),
      (RefKey ''branch'' ''e/f'' ''main'',
       (ref_of ''e/f'' ''main'')\<lparr>Ref_PullPipelineVariablesRegexp := ''.*''\<rparr>)]"

definition metric_coverage :: Metric where
  "metric_coverage =
     \<lparr>Metric_Kind = MetricKindCoverage,
      Metric_Labels = [(''project'', ''p''), (''kind'', ''branch''), (''ref'', ''main'')],
      Metric_Value = Finite 80\<rparr>"

definition scenario_metrics_store :: State where
  "scenario_metrics_store =
     empty_store\<lparr>refs := [(RefKey ''branch'' ''p'' ''main'', ref_of ''p'' ''main'')],
                  metrics := [(Metric_Key metric_job_status, metric_job_status),
                              (Metric_Key metric_coverage, metric_coverage),
                              (Metric_Key metric_no_project, metric_no_project)]\<rparr>"

text \<open>One second, in the nanoseconds of \<open>time.Duration\<close>, and the states that the tests of the
  task queue go through.\<close>

definition Second :: nat where
  "Second = 1000000000"

definition queued_by_controller1 :: Redis where
  "queued_by_controller1 =
     snd (QueueTask TaskTypePullMetrics ''foo'' ''controller1''
            (snd (SetKeepalive ''controller1'' Second newTestRedisStore)))"

definition foo_unqueued :: Redis where
  "foo_unqueued =
     snd (UnqueueTask TaskTypePullMetrics ''foo''
            (snd (QueueTask TaskTypePullMetrics ''bar'' []
                    (snd (QueueTask TaskTypePullMetrics ''foo'' [] newTestRedisStore)))))"

section \<open>Calls to the store\<close>

lemma store_do_success:
  "store_do c f s = (Inr a, s') \<Longrightarrow>
   (a, s') = f (s\<lparr>faults := tl (faults s), calls := calls s @ [c]\<rparr>)"
  by (auto simp: store_do_def Let_def split: list.splits bool.splits prod.splits)

lemma faults_Nil_update: "faults s = [] \<Longrightarrow> s\<lparr>faults := [], calls := cs\<rparr> = s\<lparr>calls := cs\<rparr>"
  by (cases s) simp

lemma store_do_ok:
  "faults s = [] \<Longrightarrow>
   store_do c f s = (case f (s\<lparr>calls := calls s @ [c]\<rparr>) of (a, s2) \<Rightarrow> (Inr a, s2))"
  by (simp add: store_do_def faults_Nil_update)


section \<open>Lemmas on the pass over the projects\<close>

lemma map_of_delete_keys:
  "map_of (delete_keys ps sp) k = (if k \<in> Project_Key ` set ps then None else map_of sp k)"
  by (induction ps arbitrary: sp) (auto simp: AList.delete_conv')

lemma discovered_Nil: "discovered lp [] = []"
  by (simp add: discovered_def)

lemma discovered_Cons:
  "discovered lp (w # ws) = (case lp w of Inl _ \<Rightarrow> [] | Inr found \<Rightarrow> found) @ discovered lp ws"
  by (simp add: discovered_def)

lemma map_of_delete_wildcards:
  "delete_wildcards lp ws sp = Inr sp' \<Longrightarrow>
   map_of sp' k = (if k \<in> Project_Key ` set (discovered lp ws) then None else map_of sp k)"
proof (induction ws arbitrary: sp)
  case Nil
  then show ?case by (simp add: discovered_Nil)
next
  case (Cons w ws)
  from Cons.prems obtain found where
    f: "lp w = Inr found" and
    r: "delete_wildcards lp ws (delete_keys found sp) = Inr sp'"
    by (auto split: sum.splits)
  have "map_of sp' k =
      (if k \<in> Project_Key ` set (discovered lp ws) then None
       else map_of (delete_keys found sp) k)"
    by (rule Cons.IH[OF r])
  then show ?case
    by (simp add: discovered_Cons f map_of_delete_keys image_Un)
qed

lemma projects_delete_stored:
  "delete_stored stale s = (Return None, s') \<Longrightarrow>
   map_of (projects s') k = (if k \<in> fst ` set stale then None else map_of (projects s) k)"
proof (induction stale arbitrary: s)
  case Nil
  then show ?case by simp
next
  case (Cons e stale)
  obtain k0 p0 where e: "e = (k0, p0)" by (cases e)
  from Cons.prems e obtain s1 where
    d: "store_DelProject k0 s = (Inr (), s1)" and
    r: "delete_stored stale (log_write InfoLevel ''deleted project from the store''
               [(''project-name'', LogString (Project_Name p0))] s1) = (Return None, s')"
    by (auto split: prod.splits sum.splits)
  from d have p1: "projects s1 = AList.delete k0 (projects s)"
    by (auto simp: store_DelProject_def dest!: store_do_success)
  from Cons.IH[OF r] p1 e show ?case
    by (auto simp: log_write_def AList.delete_conv')
qed


section \<open>Lemmas on the passes over the environments and the refs\<close>

lemma Project_Key_literal: "Project_Key (Project_literal pp0 n) = n"
  by (simp add: Project_Key_def Project_literal_def)

lemma gcEnvironment_no_project:
  assumes "faults s = []" and "map_of (projects s) (Environment_ProjectName env) = None"
  shows "gcEnvironment rc pp0 k env s =
     (Continue,
      s\<lparr>environments := AList.delete k (environments s),
        calls := calls s @ [CallProjectExists (Environment_ProjectName env), CallDelEnvironment k],
        logs := logs s @ [(InfoLevel, ''deleted environment from the store'',
                  [(''project-name'', LogString (Environment_ProjectName env)),
                   (''environment-name'', LogString (Environment_Name env)),
                   (''reason'', LogString ''non-existent-project'')])]\<rparr>)"
  using assms
  by (simp add: gcEnvironment_def Project_Key_literal store_ProjectExists_def
      store_DelEnvironment_def store_do_ok log_write_def)

lemma gcEnvironment_no_match:
  assumes "faults s = []" and "map_of (projects s) (Environment_ProjectName env) = Some p"
    and "rc (Pull_Environments_NameRegexp (Project_Parameters p)) = Some re"
    and "\<not> re (Environment_Name env)"
  shows "gcEnvironment rc pp0 k env s =
     (Continue,
      s\<lparr>environments := AList.delete k (environments s),
        calls := calls s @ [CallProjectExists (Environment_ProjectName env),
                            CallGetProject (Environment_ProjectName env), CallDelEnvironment k],
        logs := logs s @ [(InfoLevel, ''deleted environment from the store'',
                  [(''project-name'', LogString (Environment_ProjectName env)),
                   (''environment-name'', LogString (Environment_Name env)),
                   (''reason'', LogString ''environment-not-in-regexp'')])]\<rparr>)"
  using assms
  by (simp add: gcEnvironment_def Project_Key_literal store_ProjectExists_def store_GetProject_def
      store_DelEnvironment_def store_do_ok log_write_def)


lemma gcEnvironment_refresh:
  assumes "faults s = []" and "map_of (projects s) (Environment_ProjectName env) = Some p"
    and "rc (Pull_Environments_NameRegexp (Project_Parameters p)) = Some re"
    and "re (Environment_Name env)"
    and "Environment_OutputSparseStatusMetrics env \<noteq> OutputSparseStatusMetrics (Project_Parameters p)
         \<or> Environment_TagsRegexp env \<noteq> Pull_Environments_TagsRegexp (Project_Parameters p)"
    and "env' = env\<lparr>Environment_OutputSparseStatusMetrics := OutputSparseStatusMetrics (Project_Parameters p),
                     Environment_TagsRegexp := Pull_Environments_TagsRegexp (Project_Parameters p)\<rparr>"
  shows "gcEnvironment rc pp0 k env s =
     (Proceed,
      s\<lparr>environments := AList.update (Environment_Key env') env' (environments s),
        calls := calls s @ [CallProjectExists (Environment_ProjectName env),
                            CallGetProject (Environment_ProjectName env), CallSetEnvironment env'],
        logs := logs s @ [(InfoLevel,
                  ''updated project ref, associated project configuration was not in sync'',
                  [(''project-name'', LogString (Environment_ProjectName env)),
                   (''environment-name'', LogString (Environment_Name env))])]\<rparr>)"
  using assms
  by (simp add: gcEnvironment_def Project_Key_literal store_ProjectExists_def store_GetProject_def
      store_SetEnvironment_def store_do_ok log_write_def Let_def)

lemma gcEnvironment_in_sync:
  assumes "faults s = []" and "map_of (projects s) (Environment_ProjectName env) = Some p"
    and "rc (Pull_Environments_NameRegexp (Project_Parameters p)) = Some re"
    and "re (Environment_Name env)"
    and "Environment_OutputSparseStatusMetrics env = OutputSparseStatusMetrics (Project_Parameters p)"
    and "Environment_TagsRegexp env = Pull_Environments_TagsRegexp (Project_Parameters p)"
  shows "gcEnvironment rc pp0 k env s =
     (Proceed,
      s\<lparr>calls := calls s @ [CallProjectExists (Environment_ProjectName env),
                            CallGetProject (Environment_ProjectName env)]\<rparr>)"
  using assms
  by (simp add: gcEnvironment_def Project_Key_literal store_ProjectExists_def store_GetProject_def
      store_do_ok)

lemma gcEnvironment_invalid:
  assumes "faults s = []" and "map_of (projects s) (Environment_ProjectName env) = Some p"
    and "rc (Pull_Environments_NameRegexp (Project_Parameters p)) = None"
  shows "gcEnvironment rc pp0 k env s =
     (Exit Panic,
      s\<lparr>calls := calls s @ [CallProjectExists (Environment_ProjectName env),
                            CallGetProject (Environment_ProjectName env)]\<rparr>)"
  using assms
  by (simp add: gcEnvironment_def Project_Key_literal store_ProjectExists_def store_GetProject_def
      store_do_ok)

lemma gcEnvironment_frame:
  assumes "faults s = []" and "gcEnvironment rc pp0 k env s = (fl, s1)"
  shows "faults s1 = [] \<and> projects s1 = projects s \<and> (fl = Exit Panic \<or> fl = Proceed \<or> fl = Continue)"
  using assms
  by (auto simp: gcEnvironment_def Project_Key_literal store_ProjectExists_def store_GetProject_def
      store_SetEnvironment_def store_DelEnvironment_def store_do_ok log_write_def Let_def
      split: if_splits option.splits)

lemma gcEnvironments_loop_panics:
  assumes "faults s = []" and "(k, env) \<in> set xs"
    and "map_of (projects s) (Environment_ProjectName env) = Some p"
    and "rc (Pull_Environments_NameRegexp (Project_Parameters p)) = None"
  shows "fst (gcEnvironments_loop rc pp0 xs s) = Panic"
  using assms
proof (induction xs arbitrary: s)
  case Nil
  then show ?case by simp
next
  case (Cons x xs)
  obtain k0 e0 where x: "x = (k0, e0)" by (cases x)
  obtain fl s1 where b: "gcEnvironment rc pp0 k0 e0 s = (fl, s1)" by (cases "gcEnvironment rc pp0 k0 e0 s")
  from gcEnvironment_frame[OF Cons.prems(1) b]
  have f1: "faults s1 = []" and p1: "projects s1 = projects s"
    and fl: "fl = Exit Panic \<or> fl = Proceed \<or> fl = Continue" by auto
  show ?case
  proof (cases "fl = Exit Panic")
    case True
    with b x show ?thesis by simp
  next
    case False
    have "(k, env) \<noteq> (k0, e0)"
    proof
      assume "(k, env) = (k0, e0)"
      with gcEnvironment_invalid[of s env p rc pp0 k] Cons.prems(1,3,4) b False
      show False by simp
    qed
    with Cons.prems(2) x have mem: "(k, env) \<in> set xs" by auto
    have "fst (gcEnvironments_loop rc pp0 xs s1) = Panic"
      using Cons.IH[OF f1 mem] Cons.prems(3,4) p1 by simp
    with b x fl False show ?thesis by auto
  qed
qed


lemma gcRef_no_project:
  assumes "faults s = []" and "map_of (projects s) (Ref_ProjectName ref) = None"
  shows "gcRef rc pp0 k ref s =
     (Continue,
      s\<lparr>refs := AList.delete k (refs s),
        calls := calls s @ [CallProjectExists (Ref_ProjectName ref), CallDelRef k],
        logs := logs s @ [(InfoLevel, ''deleted project ref from the store'',
                  [(''project-name'', LogString (Ref_ProjectName ref)),
                   (''project-ref'', LogString (Ref_Name ref)),
                   (''reason'', LogString ''non-existent-project'')])]\<rparr>)"
  using assms
  by (simp add: gcRef_def Project_Key_literal store_ProjectExists_def
      store_DelRef_def store_do_ok log_write_def)

lemma gcRef_no_match:
  assumes "faults s = []" and "map_of (projects s) (Ref_ProjectName ref) = Some p"
    and "rc (Pull_Refs_Regexp (Project_Parameters p)) = Some re"
    and "\<not> re (Ref_Name ref)"
  shows "gcRef rc pp0 k ref s =
     (Continue,
      s\<lparr>refs := AList.delete k (refs s),
        calls := calls s @ [CallProjectExists (Ref_ProjectName ref),
                            CallGetProject (Ref_ProjectName ref), CallDelRef k],
        logs := logs s @ [(InfoLevel, ''deleted project ref from the store'',
                  [(''project-name'', LogString (Ref_ProjectName ref)),
                   (''project-ref'', LogString (Ref_Name ref)),
                   (''reason'', LogString ''ref-not-in-regexp'')])]\<rparr>)"
  using assms
  by (simp add: gcRef_def Project_Key_literal store_ProjectExists_def store_GetProject_def
      store_DelRef_def store_do_ok log_write_def)

lemma gcRef_refresh:
  assumes "faults s = []" and "map_of (projects s) (Ref_ProjectName ref) = Some p"
    and "rc (Pull_Refs_Regexp (Project_Parameters p)) = Some re"
    and "re (Ref_Name ref)"
    and "Ref_OutputSparseStatusMetrics ref \<noteq> OutputSparseStatusMetrics (Project_Parameters p)
         \<or> Ref_PullPipelineJobsEnabled ref \<noteq> Pull_Pipeline_Jobs_Enabled (Project_Parameters p)
         \<or> Ref_PullPipelineVariablesEnabled ref \<noteq> Pull_Pipeline_Variables_Enabled (Project_Parameters p)
         \<or> Ref_PullPipelineVariablesRegexp ref \<noteq> Pull_Pipeline_Variables_Regexp (Project_Parameters p)"
    and "ref' = ref\<lparr>Ref_OutputSparseStatusMetrics := OutputSparseStatusMetrics (Project_Parameters p),
                     Ref_PullPipelineJobsEnabled := Pull_Pipeline_Jobs_Enabled (Project_Parameters p),
                     Ref_PullPipelineVariablesEnabled := Pull_Pipeline_Variables_Enabled (Project_Parameters p),
                     Ref_PullPipelineVariablesRegexp := Pull_Pipeline_Variables_Regexp (Project_Parameters p)\<rparr>"
  shows "gcRef rc pp0 k ref s =
     (Proceed,
      s\<lparr>refs := AList.update (Ref_Key ref') ref' (refs s),
        calls := calls s @ [CallProjectExists (Ref_ProjectName ref),
                            CallGetProject (Ref_ProjectName ref), CallSetRef ref'],
        logs := logs s @ [(InfoLevel,
                  ''updated project ref, associated project configuration was not in sync'',
                  [(''project-name'', LogString (Ref_ProjectName ref)),
                   (''project-ref'', LogString (Ref_Name ref))])]\<rparr>)"
  using assms
  by (simp add: gcRef_def Project_Key_literal store_ProjectExists_def store_GetProject_def
      store_SetRef_def store_do_ok log_write_def Let_def)

lemma gcRef_in_sync:
  assumes "faults s = []" and "map_of (projects s) (Ref_ProjectName ref) = Some p"
    and "rc (Pull_Refs_Regexp (Project_Parameters p)) = Some re"
    and "re (Ref_Name ref)"
    and "Ref_OutputSparseStatusMetrics ref = OutputSparseStatusMetrics (Project_Parameters p)"
    and "Ref_PullPipelineJobsEnabled ref = Pull_Pipeline_Jobs_Enabled (Project_Parameters p)"
    and "Ref_PullPipelineVariablesEnabled ref = Pull_Pipeline_Variables_Enabled (Project_Parameters p)"
    and "Ref_PullPipelineVariablesRegexp ref = Pull_Pipeline_Variables_Regexp (Project_Parameters p)"
  shows "gcRef rc pp0 k ref s =
     (Proceed,
      s\<lparr>calls := calls s @ [CallProjectExists (Ref_ProjectName ref),
                            CallGetProject (Ref_ProjectName ref)]\<rparr>)"
  using assms
  by (simp add: gcRef_def Project_Key_literal store_ProjectExists_def store_GetProject_def
      store_do_ok)

lemma gcRef_invalid:
  assumes "faults s = []" and "map_of (projects s) (Ref_ProjectName ref) = Some p"
    and "rc (Pull_Refs_Regexp (Project_Parameters p)) = None"
  shows "gcRef rc pp0 k ref s =
     (Exit Panic,
      s\<lparr>calls := calls s @ [CallProjectExists (Ref_ProjectName ref),
                            CallGetProject (Ref_ProjectName ref)]\<rparr>)"
  using assms
  by (simp add: gcRef_def Project_Key_literal store_ProjectExists_def store_GetProject_def
      store_do_ok)

lemma gcRef_frame:
  assumes "faults s = []" and "gcRef rc pp0 k ref s = (fl, s1)"
  shows "faults s1 = [] \<and> projects s1 = projects s \<and> (fl = Exit Panic \<or> fl = Proceed \<or> fl = Continue)"
  using assms
  by (auto simp: gcRef_def Project_Key_literal store_ProjectExists_def store_GetProject_def
      store_SetRef_def store_DelRef_def store_do_ok log_write_def Let_def
      split: if_splits option.splits)

lemma gcRefs_loop_panics:
  assumes "faults s = []" and "(k, ref) \<in> set xs"
    and "map_of (projects s) (Ref_ProjectName ref) = Some p"
    and "rc (Pull_Refs_Regexp (Project_Parameters p)) = None"
  shows "fst (gcRefs_loop rc pp0 xs s) = Panic"
  using assms
proof (induction xs arbitrary: s)
  case Nil
  then show ?case by simp
next
  case (Cons x xs)
  obtain k0 e0 where x: "x = (k0, e0)" by (cases x)
  obtain fl s1 where b: "gcRef rc pp0 k0 e0 s = (fl, s1)" by (cases "gcRef rc pp0 k0 e0 s")
  from gcRef_frame[OF Cons.prems(1) b]
  have f1: "faults s1 = []" and p1: "projects s1 = projects s"
    and fl: "fl = Exit Panic \<or> fl = Proceed \<or> fl = Continue" by auto
  show ?case
  proof (cases "fl = Exit Panic")
    case True
    with b x show ?thesis by simp
  next
    case False
    have "(k, ref) \<noteq> (k0, e0)"
    proof
      assume "(k, ref) = (k0, e0)"
      with gcRef_invalid[of s ref p rc pp0 k] Cons.prems(1,3,4) b False
      show False by simp
    qed
    with Cons.prems(2) x have mem: "(k, ref) \<in> set xs" by auto
    have "fst (gcRefs_loop rc pp0 xs s1) = Panic"
      using Cons.IH[OF f1 mem] Cons.prems(3,4) p1 by simp
    with b x fl False show ?thesis by auto
  qed
qed

text \<open>The body of each loop, with a store that answers every call.\<close>

lemma gcEnvironment_eq:
  assumes "faults s = []"
  shows "gcEnvironment rc pp0 k env s =
     (case map_of (projects s) (Environment_ProjectName env) of
        None \<Rightarrow>
          (Continue,
           s\<lparr>environments := AList.delete k (environments s),
             calls := calls s @ [CallProjectExists (Environment_ProjectName env),
                                 CallDelEnvironment k],
             logs := logs s @ [(InfoLevel, ''deleted environment from the store'',
                       [(''project-name'', LogString (Environment_ProjectName env)),
                        (''environment-name'', LogString (Environment_Name env)),
                        (''reason'', LogString ''non-existent-project'')])]\<rparr>)
      | Some p \<Rightarrow>
          (case rc (Pull_Environments_NameRegexp (Project_Parameters p)) of
             None \<Rightarrow>
               (Exit Panic,
                s\<lparr>calls := calls s @ [CallProjectExists (Environment_ProjectName env),
                                      CallGetProject (Environment_ProjectName env)]\<rparr>)
           | Some re \<Rightarrow>
               if \<not> re (Environment_Name env) then
                 (Continue,
                  s\<lparr>environments := AList.delete k (environments s),
                    calls := calls s @ [CallProjectExists (Environment_ProjectName env),
                                        CallGetProject (Environment_ProjectName env),
                                        CallDelEnvironment k],
                    logs := logs s @ [(InfoLevel, ''deleted environment from the store'',
                              [(''project-name'', LogString (Environment_ProjectName env)),
                               (''environment-name'', LogString (Environment_Name env)),
                               (''reason'', LogString ''environment-not-in-regexp'')])]\<rparr>)
               else if Environment_OutputSparseStatusMetrics env
                         \<noteq> OutputSparseStatusMetrics (Project_Parameters p)
                       \<or> Environment_TagsRegexp env
                         \<noteq> Pull_Environments_TagsRegexp (Project_Parameters p) then
                 (let env' = env\<lparr>Environment_OutputSparseStatusMetrics :=
                                     OutputSparseStatusMetrics (Project_Parameters p),
                                   Environment_TagsRegexp :=
                                     Pull_Environments_TagsRegexp (Project_Parameters p)\<rparr>
                  in (Proceed,
                      s\<lparr>environments := AList.update (Environment_Key env') env' (environments s),
                        calls := calls s @ [CallProjectExists (Environment_ProjectName env),
                                            CallGetProject (Environment_ProjectName env),
                                            CallSetEnvironment env'],
                        logs := logs s @ [(InfoLevel,
                                  ''updated project ref, associated project configuration was not in sync'',
                                  [(''project-name'', LogString (Environment_ProjectName env)),
                                   (''environment-name'', LogString (Environment_Name env))])]\<rparr>))
               else
                 (Proceed,
                  s\<lparr>calls := calls s @ [CallProjectExists (Environment_ProjectName env),
                                        CallGetProject (Environment_ProjectName env)]\<rparr>)))"
proof (cases "map_of (projects s) (Environment_ProjectName env)")
  case None
  from gcEnvironment_no_project[OF assms None] show ?thesis
    by (simp add: None)
next
  case p: (Some p)
  show ?thesis
  proof (cases "rc (Pull_Environments_NameRegexp (Project_Parameters p))")
    case None
    from gcEnvironment_invalid[of s env p rc pp0 k] assms p None show ?thesis
      by simp
  next
    case re: (Some re)
    show ?thesis
    proof (cases "re (Environment_Name env)")
      case False
      from gcEnvironment_no_match[of s env p rc re pp0 k] assms p re False show ?thesis
        by simp
    next
      case True
      show ?thesis
      proof (cases "Environment_OutputSparseStatusMetrics env
                         \<noteq> OutputSparseStatusMetrics (Project_Parameters p)
                       \<or> Environment_TagsRegexp env
                         \<noteq> Pull_Environments_TagsRegexp (Project_Parameters p)")
        case drift: True
        from gcEnvironment_refresh[of s env p rc re _ pp0 k, OF assms p re True drift refl] show ?thesis
          unfolding p re option.case Let_def if_P[OF drift] by (simp add: True)
      next
        case False
        then have "Environment_OutputSparseStatusMetrics env
                     = OutputSparseStatusMetrics (Project_Parameters p)"
          and "Environment_TagsRegexp env = Pull_Environments_TagsRegexp (Project_Parameters p)"
          by simp_all
        from gcEnvironment_in_sync[of s env p rc re pp0 k, OF assms p re True this] show ?thesis
          unfolding p re option.case if_not_P[OF False] by (simp add: True)
      qed
    qed
  qed
qed

lemma gcRef_eq:
  assumes "faults s = []"
  shows "gcRef rc pp0 k ref s =
     (case map_of (projects s) (Ref_ProjectName ref) of
        None \<Rightarrow>
          (Continue,
           s\<lparr>refs := AList.delete k (refs s),
             calls := calls s @ [CallProjectExists (Ref_ProjectName ref), CallDelRef k],
             logs := logs s @ [(InfoLevel, ''deleted project ref from the store'',
                       [(''project-name'', LogString (Ref_ProjectName ref)),
                        (''project-ref'', LogString (Ref_Name ref)),
                        (''reason'', LogString ''non-existent-project'')])]\<rparr>)
      | Some p \<Rightarrow>
          (case rc (Pull_Refs_Regexp (Project_Parameters p)) of
             None \<Rightarrow>
               (Exit Panic,
                s\<lparr>calls := calls s @ [CallProjectExists (Ref_ProjectName ref),
                                      CallGetProject (Ref_ProjectName ref)]\<rparr>)
           | Some re \<Rightarrow>
               if \<not> re (Ref_Name ref) then
                 (Continue,
                  s\<lparr>refs := AList.delete k (refs s),
                    calls := calls s @ [CallProjectExists (Ref_ProjectName ref),
                                        CallGetProject (Ref_ProjectName ref), CallDelRef k],
                    logs := logs s @ [(InfoLevel, ''deleted project ref from the store'',
                              [(''project-name'', LogString (Ref_ProjectName ref)),
                               (''project-ref'', LogString (Ref_Name ref)),
                               (''reason'', LogString ''ref-not-in-regexp'')])]\<rparr>)
               else if Ref_OutputSparseStatusMetrics ref
                         \<noteq> OutputSparseStatusMetrics (Project_Parameters p)
                       \<or> Ref_PullPipelineJobsEnabled ref
                         \<noteq> Pull_Pipeline_Jobs_Enabled (Project_Parameters p)
                       \<or> Ref_PullPipelineVariablesEnabled ref
                         \<noteq> Pull_Pipeline_Variables_Enabled (Project_Parameters p)
                       \<or> Ref_PullPipelineVariablesRegexp ref
                         \<noteq> Pull_Pipeline_Variables_Regexp (Project_Parameters p) then
                 (let ref' = ref\<lparr>Ref_OutputSparseStatusMetrics :=
                                     OutputSparseStatusMetrics (Project_Parameters p),
                                   Ref_PullPipelineJobsEnabled :=
                                     Pull_Pipeline_Jobs_Enabled (Project_Parameters p),
                                   Ref_PullPipelineVariablesEnabled :=
                                     Pull_Pipeline_Variables_Enabled (Project_Parameters p),
                                   Ref_PullPipelineVariablesRegexp :=
                                     Pull_Pipeline_Variables_Regexp (Project_Parameters p)\<rparr>
                  in (Proceed,
                      s\<lparr>refs := AList.update (Ref_Key ref') ref' (refs s),
                        calls := calls s @ [CallProjectExists (Ref_ProjectName ref),
                                            CallGetProject (Ref_ProjectName ref), CallSetRef ref'],
                        logs := logs s @ [(InfoLevel,
                                  ''updated project ref, associated project configuration was not in sync'',
                                  [(''project-name'', LogString (Ref_ProjectName ref)),
                                   (''project-ref'', LogString (Ref_Name ref))])]\<rparr>))
               else
                 (Proceed,
                  s\<lparr>calls := calls s @ [CallProjectExists (Ref_ProjectName ref),
                                        CallGetProject (Ref_ProjectName ref)]\<rparr>)))"
proof (cases "map_of (projects s) (Ref_ProjectName ref)")
  case None
  from gcRef_no_project[OF assms None] show ?thesis
    by (simp add: None)
next
  case p: (Some p)
  show ?thesis
  proof (cases "rc (Pull_Refs_Regexp (Project_Parameters p))")
    case None
    from gcRef_invalid[of s ref p rc pp0 k] assms p None show ?thesis
      by simp
  next
    case re: (Some re)
    show ?thesis
    proof (cases "re (Ref_Name ref)")
      case False
      from gcRef_no_match[of s ref p rc re pp0 k] assms p re False show ?thesis
        by simp
    next
      case True
      show ?thesis
      proof (cases "Ref_OutputSparseStatusMetrics ref
                         \<noteq> OutputSparseStatusMetrics (Project_Parameters p)
                       \<or> Ref_PullPipelineJobsEnabled ref
                         \<noteq> Pull_Pipeline_Jobs_Enabled (Project_Parameters p)
                       \<or> Ref_PullPipelineVariablesEnabled ref
                         \<noteq> Pull_Pipeline_Variables_Enabled (Project_Parameters p)
                       \<or> Ref_PullPipelineVariablesRegexp ref
                         \<noteq> Pull_Pipeline_Variables_Regexp (Project_Parameters p)")
        case drift: True
        from gcRef_refresh[of s ref p rc re _ pp0 k, OF assms p re True drift refl] show ?thesis
          unfolding p re option.case Let_def if_P[OF drift] by (simp add: True)
      next
        case False
        then have "Ref_OutputSparseStatusMetrics ref = OutputSparseStatusMetrics (Project_Parameters p)"
          and "Ref_PullPipelineJobsEnabled ref = Pull_Pipeline_Jobs_Enabled (Project_Parameters p)"
          and "Ref_PullPipelineVariablesEnabled ref
                 = Pull_Pipeline_Variables_Enabled (Project_Parameters p)"
          and "Ref_PullPipelineVariablesRegexp ref
                 = Pull_Pipeline_Variables_Regexp (Project_Parameters p)"
          by simp_all
        from gcRef_in_sync[of s ref p rc re pp0 k, OF assms p re True this] show ?thesis
          unfolding p re option.case if_not_P[OF False] by (simp add: True)
      qed
    qed
  qed
qed

text \<open>The passes, with a store that answers every call.\<close>

lemma environment_refresh_same:
  "(env\<lparr>Environment_OutputSparseStatusMetrics := a, Environment_TagsRegexp := b\<rparr> = env)
   = (Environment_OutputSparseStatusMetrics env = a \<and> Environment_TagsRegexp env = b)"
  by (cases env) auto

lemma gcEnvironment_summary:
  assumes nf: "faults s = []"
    and valid: "\<forall>p. map_of (projects s) (Environment_ProjectName env) = Some p \<longrightarrow>
                  rc (Pull_Environments_NameRegexp (Project_Parameters p)) \<noteq> None"
  shows "(fst (gcEnvironment rc pp0 k env s) = Continue \<or> fst (gcEnvironment rc pp0 k env s) = Proceed)
       \<and> faults (snd (gcEnvironment rc pp0 k env s)) = []
       \<and> projects (snd (gcEnvironment rc pp0 k env s)) = projects s
       \<and> calls (snd (gcEnvironment rc pp0 k env s))
           = calls s @ environment_calls rc (projects s) k env
       \<and> environments (snd (gcEnvironment rc pp0 k env s))
           = environment_apply rc (projects s) k env (environments s)"
proof (cases "map_of (projects s) (Environment_ProjectName env)")
  case None
  with gcEnvironment_eq[OF nf, of rc pp0 k env] nf show ?thesis
    by (simp add: environment_calls_def environment_apply_def environment_after_def)
next
  case p: (Some p)
  with valid obtain re where re: "rc (Pull_Environments_NameRegexp (Project_Parameters p)) = Some re"
    by auto
  show ?thesis
  proof (cases "re (Environment_Name env)")
    case False
    with gcEnvironment_eq[OF nf, of rc pp0 k env] nf p re show ?thesis
      by (simp add: environment_calls_def environment_apply_def environment_after_def)
  next
    case True
    show ?thesis
    proof (cases "Environment_OutputSparseStatusMetrics env
                         \<noteq> OutputSparseStatusMetrics (Project_Parameters p)
                       \<or> Environment_TagsRegexp env
                         \<noteq> Pull_Environments_TagsRegexp (Project_Parameters p)")
      case drift: True
      then have ne: "env\<lparr>Environment_OutputSparseStatusMetrics :=
                                 OutputSparseStatusMetrics (Project_Parameters p),
                               Environment_TagsRegexp :=
                                 Pull_Environments_TagsRegexp (Project_Parameters p)\<rparr> \<noteq> env"
        by (simp add: environment_refresh_same)
      have "gcEnvironment rc pp0 k env s =
        (let env' = env\<lparr>Environment_OutputSparseStatusMetrics :=
                                     OutputSparseStatusMetrics (Project_Parameters p),
                                   Environment_TagsRegexp :=
                                     Pull_Environments_TagsRegexp (Project_Parameters p)\<rparr>
                  in (Proceed,
                      s\<lparr>environments := AList.update (Environment_Key env') env' (environments s),
                        calls := calls s @ [CallProjectExists (Environment_ProjectName env),
                                            CallGetProject (Environment_ProjectName env),
                                            CallSetEnvironment env'],
                        logs := logs s @ [(InfoLevel,
                                  ''updated project ref, associated project configuration was not in sync'',
                                  [(''project-name'', LogString (Environment_ProjectName env)),
                                   (''environment-name'', LogString (Environment_Name env))])]\<rparr>))"
        using gcEnvironment_eq[OF nf, of rc pp0 k env]
        unfolding p re option.case if_P[OF drift] by (simp add: True)
      with nf p re True drift ne show ?thesis
        unfolding environment_calls_def environment_apply_def environment_after_def
        by (simp add: Let_def)
    next
      case False
      then have eq: "env\<lparr>Environment_OutputSparseStatusMetrics :=
                                 OutputSparseStatusMetrics (Project_Parameters p),
                               Environment_TagsRegexp :=
                                 Pull_Environments_TagsRegexp (Project_Parameters p)\<rparr> = env"
        by (simp add: environment_refresh_same)
      have "gcEnvironment rc pp0 k env s =
                 (Proceed,
                  s\<lparr>calls := calls s @ [CallProjectExists (Environment_ProjectName env),
                                        CallGetProject (Environment_ProjectName env)]\<rparr>)"
        using gcEnvironment_eq[OF nf, of rc pp0 k env]
        unfolding p re option.case if_not_P[OF False] by (simp add: True)
      with nf p re True False eq show ?thesis
        unfolding environment_calls_def environment_apply_def environment_after_def
        by simp
    qed
  qed
qed

lemma gcEnvironments_loop_summary:
  assumes "faults s = []"
    and "\<forall>(k, env) \<in> set xs. \<forall>p. map_of (projects s) (Environment_ProjectName env) = Some p \<longrightarrow>
                  rc (Pull_Environments_NameRegexp (Project_Parameters p)) \<noteq> None"
  shows "fst (gcEnvironments_loop rc pp0 xs s) = Return None
       \<and> calls (snd (gcEnvironments_loop rc pp0 xs s))
           = calls s @ concat (map (\<lambda>(k, env). environment_calls rc (projects s) k env) xs)
       \<and> environments (snd (gcEnvironments_loop rc pp0 xs s))
           = foldl (\<lambda>es (k, env). environment_apply rc (projects s) k env es) (environments s) xs"
  using assms
proof (induction xs arbitrary: s)
  case Nil
  then show ?case by simp
next
  case (Cons x xs)
  obtain k0 e0 where x: "x = (k0, e0)" by (cases x)
  obtain fl s1 where b: "gcEnvironment rc pp0 k0 e0 s = (fl, s1)"
    by (cases "gcEnvironment rc pp0 k0 e0 s")
  have v0: "\<forall>p. map_of (projects s) (Environment_ProjectName e0) = Some p \<longrightarrow>
                  rc (Pull_Environments_NameRegexp (Project_Parameters p)) \<noteq> None"
    using Cons.prems(2) x by simp
  from gcEnvironment_summary[OF Cons.prems(1) v0, of pp0 k0] b
  have fl: "fl = Continue \<or> fl = Proceed" and f1: "faults s1 = []"
    and p1: "projects s1 = projects s"
    and c1: "calls s1 = calls s @ environment_calls rc (projects s) k0 e0"
    and e1: "environments s1 = environment_apply rc (projects s) k0 e0 (environments s)"
    by simp_all
  have v1: "\<forall>(k, env) \<in> set xs. \<forall>p. map_of (projects s1) (Environment_ProjectName env) = Some p \<longrightarrow>
                  rc (Pull_Environments_NameRegexp (Project_Parameters p)) \<noteq> None"
    using Cons.prems(2) p1 by simp
  have step: "gcEnvironments_loop rc pp0 (x # xs) s = gcEnvironments_loop rc pp0 xs s1"
    using fl by (auto simp: x b)
  from Cons.IH[OF f1 v1] show ?case
    unfolding step by (simp add: x p1 c1 e1)
qed

lemma environment_after_key:
  "environment_after rc ps env = Some env' \<Longrightarrow> Environment_Key env' = Environment_Key env"
  by (auto simp: environment_after_def Environment_Key_def split: option.splits if_splits)

lemma map_of_environment_apply:
  assumes "k0 = Environment_Key e0"
  shows "map_of (environment_apply rc ps k0 e0 es) k =
     (if k = k0 then
        (case environment_after rc ps e0 of
           None \<Rightarrow> None
         | Some env' \<Rightarrow> if env' = e0 then map_of es k else Some env')
      else map_of es k)"
  using assms
  by (auto simp: environment_apply_def AList.delete_conv' AList.update_conv'
      dest: environment_after_key split: option.splits)

lemma map_of_environments_foldl:
  assumes "distinct (map fst xs)" and "\<forall>(k, env) \<in> set xs. k = Environment_Key env"
  shows "map_of (foldl (\<lambda>es (k, env). environment_apply rc ps k env es) es xs) k =
     (case map_of xs k of
        None \<Rightarrow> map_of es k
      | Some env \<Rightarrow>
          (case environment_after rc ps env of
             None \<Rightarrow> None
           | Some env' \<Rightarrow> if env' = env then map_of es k else Some env'))"
  using assms
proof (induction xs arbitrary: es)
  case Nil
  then show ?case by simp
next
  case (Cons x xs)
  obtain k0 e0 where x: "x = (k0, e0)" by (cases x)
  from Cons.prems x have d: "distinct (map fst xs)" and nk: "k0 \<notin> fst ` set xs"
    and own: "\<forall>(k, env) \<in> set xs. k = Environment_Key env" and k0: "k0 = Environment_Key e0"
    by auto
  note IH = Cons.IH[OF d own, of "environment_apply rc ps k0 e0 es"]
  show ?case
  proof (cases "k = k0")
    case True
    with nk have "map_of xs k = None" by (simp add: map_of_eq_None_iff)
    with IH True show ?thesis
      by (auto simp: x map_of_environment_apply[OF k0])
  next
    case False
    then have e: "map_of (environment_apply rc ps k0 e0 es) k = map_of es k"
      by (simp add: map_of_environment_apply[OF k0])
    from False have m: "map_of (x # xs) k = map_of xs k"
      by (simp add: x)
    from IH show ?thesis
      unfolding e m by (simp add: x)
  qed
qed

lemma ref_refresh_same:
  "(ref\<lparr>Ref_OutputSparseStatusMetrics := a, Ref_PullPipelineJobsEnabled := b,
         Ref_PullPipelineVariablesEnabled := c, Ref_PullPipelineVariablesRegexp := d\<rparr> = ref)
   = (Ref_OutputSparseStatusMetrics ref = a \<and> Ref_PullPipelineJobsEnabled ref = b
      \<and> Ref_PullPipelineVariablesEnabled ref = c \<and> Ref_PullPipelineVariablesRegexp ref = d)"
  by (cases ref) auto

lemma gcRef_summary:
  assumes nf: "faults s = []"
    and valid: "\<forall>p. map_of (projects s) (Ref_ProjectName ref) = Some p \<longrightarrow>
                  rc (Pull_Refs_Regexp (Project_Parameters p)) \<noteq> None"
  shows "(fst (gcRef rc pp0 k ref s) = Continue \<or> fst (gcRef rc pp0 k ref s) = Proceed)
       \<and> faults (snd (gcRef rc pp0 k ref s)) = []
       \<and> projects (snd (gcRef rc pp0 k ref s)) = projects s
       \<and> calls (snd (gcRef rc pp0 k ref s))
           = calls s @ ref_calls rc (projects s) k ref
       \<and> refs (snd (gcRef rc pp0 k ref s))
           = ref_apply rc (projects s) k ref (refs s)"
proof (cases "map_of (projects s) (Ref_ProjectName ref)")
  case None
  with gcRef_eq[OF nf, of rc pp0 k ref] nf show ?thesis
    by (simp add: ref_calls_def ref_apply_def ref_after_def)
next
  case p: (Some p)
  with valid obtain re where re: "rc (Pull_Refs_Regexp (Project_Parameters p)) = Some re"
    by auto
  show ?thesis
  proof (cases "re (Ref_Name ref)")
    case False
    with gcRef_eq[OF nf, of rc pp0 k ref] nf p re show ?thesis
      by (simp add: ref_calls_def ref_apply_def ref_after_def)
  next
    case True
    show ?thesis
    proof (cases "Ref_OutputSparseStatusMetrics ref \<noteq> OutputSparseStatusMetrics (Project_Parameters p)
                       \<or> Ref_PullPipelineJobsEnabled ref
                         \<noteq> Pull_Pipeline_Jobs_Enabled (Project_Parameters p)
                       \<or> Ref_PullPipelineVariablesEnabled ref
                         \<noteq> Pull_Pipeline_Variables_Enabled (Project_Parameters p)
                       \<or> Ref_PullPipelineVariablesRegexp ref
                         \<noteq> Pull_Pipeline_Variables_Regexp (Project_Parameters p)")
      case drift: True
      then have ne: "ref\<lparr>Ref_OutputSparseStatusMetrics := OutputSparseStatusMetrics (Project_Parameters p),
                   Ref_PullPipelineJobsEnabled := Pull_Pipeline_Jobs_Enabled (Project_Parameters p),
                   Ref_PullPipelineVariablesEnabled :=
                     Pull_Pipeline_Variables_Enabled (Project_Parameters p),
                   Ref_PullPipelineVariablesRegexp :=
                     Pull_Pipeline_Variables_Regexp (Project_Parameters p)\<rparr> \<noteq> ref"
        by (simp add: ref_refresh_same)
      have "gcRef rc pp0 k ref s =
        (let ref' = ref\<lparr>Ref_OutputSparseStatusMetrics := OutputSparseStatusMetrics (Project_Parameters p),
                   Ref_PullPipelineJobsEnabled := Pull_Pipeline_Jobs_Enabled (Project_Parameters p),
                   Ref_PullPipelineVariablesEnabled :=
                     Pull_Pipeline_Variables_Enabled (Project_Parameters p),
                   Ref_PullPipelineVariablesRegexp :=
                     Pull_Pipeline_Variables_Regexp (Project_Parameters p)\<rparr>
                  in (Proceed,
                      s\<lparr>refs := AList.update (Ref_Key ref') ref' (refs s),
                        calls := calls s @ [CallProjectExists (Ref_ProjectName ref),
                                            CallGetProject (Ref_ProjectName ref),
                                            CallSetRef ref'],
                        logs := logs s @ [(InfoLevel,
                                  ''updated project ref, associated project configuration was not in sync'',
                                  [(''project-name'', LogString (Ref_ProjectName ref)),
                                   (''project-ref'', LogString (Ref_Name ref))])]\<rparr>))"
        using gcRef_eq[OF nf, of rc pp0 k ref]
        unfolding p re option.case if_P[OF drift] by (simp add: True)
      with nf p re True drift ne show ?thesis
        unfolding ref_calls_def ref_apply_def ref_after_def
        by (simp add: Let_def)
    next
      case False
      then have eq: "ref\<lparr>Ref_OutputSparseStatusMetrics := OutputSparseStatusMetrics (Project_Parameters p),
                   Ref_PullPipelineJobsEnabled := Pull_Pipeline_Jobs_Enabled (Project_Parameters p),
                   Ref_PullPipelineVariablesEnabled :=
                     Pull_Pipeline_Variables_Enabled (Project_Parameters p),
                   Ref_PullPipelineVariablesRegexp :=
                     Pull_Pipeline_Variables_Regexp (Project_Parameters p)\<rparr> = ref"
        by (simp add: ref_refresh_same)
      have "gcRef rc pp0 k ref s =
                 (Proceed,
                  s\<lparr>calls := calls s @ [CallProjectExists (Ref_ProjectName ref),
                                        CallGetProject (Ref_ProjectName ref)]\<rparr>)"
        using gcRef_eq[OF nf, of rc pp0 k ref]
        unfolding p re option.case if_not_P[OF False] by (simp add: True)
      with nf p re True False eq show ?thesis
        unfolding ref_calls_def ref_apply_def ref_after_def
        by simp
    qed
  qed
qed

lemma gcRefs_loop_summary:
  assumes "faults s = []"
    and "\<forall>(k, ref) \<in> set xs. \<forall>p. map_of (projects s) (Ref_ProjectName ref) = Some p \<longrightarrow>
                  rc (Pull_Refs_Regexp (Project_Parameters p)) \<noteq> None"
  shows "fst (gcRefs_loop rc pp0 xs s) = Return None
       \<and> calls (snd (gcRefs_loop rc pp0 xs s))
           = calls s @ concat (map (\<lambda>(k, ref). ref_calls rc (projects s) k ref) xs)
       \<and> refs (snd (gcRefs_loop rc pp0 xs s))
           = foldl (\<lambda>es (k, ref). ref_apply rc (projects s) k ref es) (refs s) xs"
  using assms
proof (induction xs arbitrary: s)
  case Nil
  then show ?case by simp
next
  case (Cons x xs)
  obtain k0 e0 where x: "x = (k0, e0)" by (cases x)
  obtain fl s1 where b: "gcRef rc pp0 k0 e0 s = (fl, s1)"
    by (cases "gcRef rc pp0 k0 e0 s")
  have v0: "\<forall>p. map_of (projects s) (Ref_ProjectName e0) = Some p \<longrightarrow>
                  rc (Pull_Refs_Regexp (Project_Parameters p)) \<noteq> None"
    using Cons.prems(2) x by simp
  from gcRef_summary[OF Cons.prems(1) v0, of pp0 k0] b
  have fl: "fl = Continue \<or> fl = Proceed" and f1: "faults s1 = []"
    and p1: "projects s1 = projects s"
    and c1: "calls s1 = calls s @ ref_calls rc (projects s) k0 e0"
    and e1: "refs s1 = ref_apply rc (projects s) k0 e0 (refs s)"
    by simp_all
  have v1: "\<forall>(k, ref) \<in> set xs. \<forall>p. map_of (projects s1) (Ref_ProjectName ref) = Some p \<longrightarrow>
                  rc (Pull_Refs_Regexp (Project_Parameters p)) \<noteq> None"
    using Cons.prems(2) p1 by simp
  have step: "gcRefs_loop rc pp0 (x # xs) s = gcRefs_loop rc pp0 xs s1"
    using fl by (auto simp: x b)
  from Cons.IH[OF f1 v1] show ?case
    unfolding step by (simp add: x p1 c1 e1)
qed

lemma ref_after_key:
  "ref_after rc ps ref = Some ref' \<Longrightarrow> Ref_Key ref' = Ref_Key ref"
  by (auto simp: ref_after_def Ref_Key_def split: option.splits if_splits)

lemma map_of_ref_apply:
  assumes "k0 = Ref_Key e0"
  shows "map_of (ref_apply rc ps k0 e0 es) k =
     (if k = k0 then
        (case ref_after rc ps e0 of
           None \<Rightarrow> None
         | Some ref' \<Rightarrow> if ref' = e0 then map_of es k else Some ref')
      else map_of es k)"
  using assms
  by (auto simp: ref_apply_def AList.delete_conv' AList.update_conv'
      dest: ref_after_key split: option.splits)

lemma map_of_refs_foldl:
  assumes "distinct (map fst xs)" and "\<forall>(k, ref) \<in> set xs. k = Ref_Key ref"
  shows "map_of (foldl (\<lambda>es (k, ref). ref_apply rc ps k ref es) es xs) k =
     (case map_of xs k of
        None \<Rightarrow> map_of es k
      | Some ref \<Rightarrow>
          (case ref_after rc ps ref of
             None \<Rightarrow> None
           | Some ref' \<Rightarrow> if ref' = ref then map_of es k else Some ref'))"
  using assms
proof (induction xs arbitrary: es)
  case Nil
  then show ?case by simp
next
  case (Cons x xs)
  obtain k0 e0 where x: "x = (k0, e0)" by (cases x)
  from Cons.prems x have d: "distinct (map fst xs)" and nk: "k0 \<notin> fst ` set xs"
    and own: "\<forall>(k, ref) \<in> set xs. k = Ref_Key ref" and k0: "k0 = Ref_Key e0"
    by auto
  note IH = Cons.IH[OF d own, of "ref_apply rc ps k0 e0 es"]
  show ?case
  proof (cases "k = k0")
    case True
    with nk have "map_of xs k = None" by (simp add: map_of_eq_None_iff)
    with IH True show ?thesis
      by (auto simp: x map_of_ref_apply[OF k0])
  next
    case False
    then have e: "map_of (ref_apply rc ps k0 e0 es) k = map_of es k"
      by (simp add: map_of_ref_apply[OF k0])
    from False have m: "map_of (x # xs) k = map_of xs k"
      by (simp add: x)
    from IH show ?thesis
      unfolding e m by (simp add: x)
  qed
qed

section \<open>Lemmas on the pass over the metrics\<close>

lemma store_do_cases:
  assumes "store_do c f s = (res, s1)"
  shows "(res = Inl StoreError \<and> s1 = s\<lparr>faults := tl (faults s), calls := calls s @ [c]\<rparr>)
       \<or> (\<exists>a. res = Inr a \<and> (a, s1) = f (s\<lparr>faults := tl (faults s), calls := calls s @ [c]\<rparr>))"
  using assms
  by (auto simp: store_do_def Let_def split: list.splits bool.splits prod.splits)

lemma delete_metric_ok:
  "faults s = [] \<Longrightarrow>
   delete_metric k m reason s =
     (None, s\<lparr>metrics := AList.delete k (metrics s),
              calls := calls s @ [CallDelMetric k],
              logs := logs s @ [(InfoLevel, ''deleted metric from the store'',
                [(''metric-kind'', LogKind (Metric_Kind m)),
                 (''metric-labels'', LogLabels (Metric_Labels m)),
                 (''reason'', LogString reason)])]\<rparr>)"
  by (simp add: delete_metric_def store_DelMetric_def store_do_ok log_write_def)


lemma float64_ne_1: "float64_ne x (Finite 1) = (x \<noteq> Finite 1)"
  by (auto simp: float64_ne_def)

lemma metric_refKey_eq:
  "metric_refKey m = RefKey (label_value (Metric_Labels m) ''kind'')
                     (label_value (Metric_Labels m) ''project'')
                     (label_value (Metric_Labels m) ''ref'')"
  by (simp add: metric_refKey_def Ref_Key_def)

lemma gcMetric_ref_stale:
  assumes nf: "faults s = []" and l: "label_exists (Metric_Labels m) ''ref''"
    and st: "ref_label_stale storedRefs m"
  shows "fst (gcMetric_ref storedRefs k m s) = Continue
       \<and> metrics (snd (gcMetric_ref storedRefs k m s)) = AList.delete k (metrics s)
       \<and> calls (snd (gcMetric_ref storedRefs k m s)) = calls s @ [CallDelMetric k]"
proof (cases "map_of storedRefs (metric_refKey m)")
  case None
  with nf l show ?thesis
    by (simp add: gcMetric_ref_def delete_metric_ok)
next
  case (Some ref)
  show ?thesis
  proof (cases "Metric_Kind m \<in> set [MetricKindJobArtifactSizeBytes, MetricKindJobDurationSeconds,
                                     MetricKindJobID, MetricKindJobRunCount, MetricKindJobStatus,
                                     MetricKindJobTimestamp]
                \<and> \<not> Ref_PullPipelineJobsEnabled ref")
    case True
    with nf l Some show ?thesis
      by (simp only: gcMetric_ref_def delete_metric_ok if_True option.case prod.case) simp
  next
    case False
    with st Some have "Metric_Kind m \<in> set [MetricKindJobStatus, MetricKindStatus]
                     \<and> Ref_OutputSparseStatusMetrics ref
                     \<and> float64_ne (Metric_Value m) (Finite 1)"
      unfolding ref_label_stale_def metric_refKey_eq[symmetric] float64_ne_1
      by (simp only: option.case) auto
    with nf l Some False show ?thesis
      by (simp only: gcMetric_ref_def delete_metric_ok if_True if_False option.case prod.case) simp
  qed
qed

lemma gcMetric_ref_fresh:
  assumes l: "label_exists (Metric_Labels m) ''ref''"
    and st: "\<not> ref_label_stale storedRefs m"
  shows "gcMetric_ref storedRefs k m s = (Proceed, s)"
proof (cases "map_of storedRefs (metric_refKey m)")
  case None
  with st show ?thesis
    unfolding ref_label_stale_def metric_refKey_eq[symmetric] by simp
next
  case (Some ref)
  with st have a: "\<not> (Metric_Kind m \<in> set [MetricKindJobArtifactSizeBytes, MetricKindJobDurationSeconds,
                                     MetricKindJobID, MetricKindJobRunCount, MetricKindJobStatus,
                                     MetricKindJobTimestamp]
                \<and> \<not> Ref_PullPipelineJobsEnabled ref)"
    and b: "\<not> (Metric_Kind m \<in> set [MetricKindJobStatus, MetricKindStatus]
                     \<and> Ref_OutputSparseStatusMetrics ref
                     \<and> float64_ne (Metric_Value m) (Finite 1))"
    unfolding ref_label_stale_def metric_refKey_eq[symmetric] float64_ne_1
    by (simp only: option.case, auto)+
  from l Some a b show ?thesis
    by (simp only: gcMetric_ref_def if_True if_False option.case)
qed










lemma label_value_missing: "\<not> label_exists ls n \<Longrightarrow> label_value ls n = []"
  by (simp add: label_exists_def label_value_def)

text \<open>The blocks, the body and the pass, with a store that answers every call.\<close>

lemma delete_metric_flow_nf:
  assumes "faults s = []"
  shows "\<exists>s1. (case delete_metric k m reason s of
                (Some err, s1) \<Rightarrow> (Exit (Return (Some err)), s1)
              | (None, s1) \<Rightarrow> (fl, s1)) = (fl, s1)
       \<and> faults s1 = [] \<and> calls s1 = calls s @ [CallDelMetric k]
       \<and> logs s1 = logs s @ [metric_log_line m reason]
       \<and> metrics s1 = AList.delete k (metrics s)"
  using assms by (simp add: delete_metric_ok metric_log_line_def)

lemma gcMetric_labels_nf:
  assumes "faults s = []"
  shows "\<exists>s1. gcMetric_labels k m s = (Proceed, s1) \<and> faults s1 = []
       \<and> (if labels_malformed m
           then calls s1 = calls s @ [CallDelMetric k]
                \<and> logs s1 = logs s
                     @ [metric_log_line m ''project-or-ref-and-environment-label-undefined'']
                \<and> metrics s1 = AList.delete k (metrics s)
           else s1 = s)"
proof (cases "labels_malformed m")
  case True
  from delete_metric_flow_nf[OF assms, where k=k and m=m and reason="''project-or-ref-and-environment-label-undefined''" and fl=Proceed]
  obtain s1 where "(case delete_metric k m ''project-or-ref-and-environment-label-undefined'' s of
                (Some err, s1) \<Rightarrow> (Exit (Return (Some err)), s1)
              | (None, s1) \<Rightarrow> (Proceed, s1)) = (Proceed, s1)"
    and "faults s1 = []" "calls s1 = calls s @ [CallDelMetric k]"
    "logs s1 = logs s @ [metric_log_line m ''project-or-ref-and-environment-label-undefined'']"
    "metrics s1 = AList.delete k (metrics s)" by blast
  with True show ?thesis
    unfolding gcMetric_labels_def labels_malformed_def[symmetric] by simp
next
  case False
  with assms show ?thesis
    unfolding gcMetric_labels_def labels_malformed_def[symmetric] by simp
qed

lemma gcMetric_ref_nf:
  assumes nf: "faults s = []"
  shows "\<exists>fl s1. gcMetric_ref storedRefs k m s = (fl, s1) \<and> faults s1 = []
       \<and> (if label_exists (Metric_Labels m) ''ref'' \<and> ref_label_stale storedRefs m
           then fl = Continue \<and> calls s1 = calls s @ [CallDelMetric k]
                \<and> logs s1 = logs s @ [metric_log_line m (ref_label_reason storedRefs m)]
                \<and> metrics s1 = AList.delete k (metrics s)
           else fl = Proceed \<and> s1 = s)"
proof (cases "label_exists (Metric_Labels m) ''ref''")
  case False
  with nf show ?thesis by (simp add: gcMetric_ref_def)
next
  case l: True
  show ?thesis
  proof (cases "ref_label_stale storedRefs m")
    case False
    with gcMetric_ref_fresh[OF l False, of k s] nf l show ?thesis by simp
  next
    case st: True
    have flow: "\<exists>s1. gcMetric_ref storedRefs k m s = (Continue, s1) \<and> faults s1 = []
        \<and> calls s1 = calls s @ [CallDelMetric k]
        \<and> logs s1 = logs s @ [metric_log_line m (ref_label_reason storedRefs m)]
        \<and> metrics s1 = AList.delete k (metrics s)"
    proof (cases "map_of storedRefs (metric_refKey m)")
      case None
      then have r: "ref_label_reason storedRefs m = ''non-existent-ref''"
        unfolding ref_label_reason_def metric_refKey_eq[symmetric] by simp
      from delete_metric_flow_nf[OF nf, where k=k and m=m and reason="''non-existent-ref''" and fl=Continue] l None
      show ?thesis unfolding r by (simp add: gcMetric_ref_def)
    next
      case (Some ref)
      show ?thesis
      proof (cases "Metric_Kind m \<in> set [MetricKindJobArtifactSizeBytes, MetricKindJobDurationSeconds,
                                     MetricKindJobID, MetricKindJobRunCount, MetricKindJobStatus,
                                     MetricKindJobTimestamp]
                \<and> \<not> Ref_PullPipelineJobsEnabled ref")
        case True
        then have "\<not> Ref_PullPipelineJobsEnabled ref
             \<and> Metric_Kind m \<in> {MetricKindJobArtifactSizeBytes, MetricKindJobDurationSeconds,
                  MetricKindJobID, MetricKindJobRunCount, MetricKindJobStatus, MetricKindJobTimestamp}"
          by simp
        then have r: "ref_label_reason storedRefs m = ''jobs-metrics-disabled-on-project-ref''"
          unfolding ref_label_reason_def metric_refKey_eq[symmetric] Some option.case
          by (rule if_P)
        from delete_metric_flow_nf[OF nf, where k=k and m=m and reason="''jobs-metrics-disabled-on-project-ref''" and fl=Continue]
        show ?thesis
          unfolding r gcMetric_ref_def if_P[OF l] Some option.case if_P[OF True] .
      next
        case False
        then have "\<not> (\<not> Ref_PullPipelineJobsEnabled ref
             \<and> Metric_Kind m \<in> {MetricKindJobArtifactSizeBytes, MetricKindJobDurationSeconds,
                  MetricKindJobID, MetricKindJobRunCount, MetricKindJobStatus, MetricKindJobTimestamp})"
          by auto
        then have r: "ref_label_reason storedRefs m = ''output-sparse-metrics-enabled-on-project-ref''"
          unfolding ref_label_reason_def metric_refKey_eq[symmetric] Some option.case
          by (rule if_not_P)
        from False st Some have c: "Metric_Kind m \<in> set [MetricKindJobStatus, MetricKindStatus]
                     \<and> Ref_OutputSparseStatusMetrics ref
                     \<and> float64_ne (Metric_Value m) (Finite 1)"
          unfolding ref_label_stale_def metric_refKey_eq[symmetric] float64_ne_1
          by (simp only: option.case) auto
        from delete_metric_flow_nf[OF nf, where k=k and m=m and reason="''output-sparse-metrics-enabled-on-project-ref''" and fl=Continue]
        show ?thesis
          unfolding r gcMetric_ref_def if_P[OF l] Some option.case if_not_P[OF False] if_P[OF c] .
      qed
    qed
    with l st show ?thesis by auto
  qed
qed

lemma gcMetric_environment_nf:
  assumes nf: "faults s = []"
  shows "\<exists>fl s1. gcMetric_environment storedEnvironments k m s = (fl, s1) \<and> faults s1 = []
       \<and> (fl = Continue \<or> fl = Proceed)
       \<and> (if label_exists (Metric_Labels m) ''environment''
                \<and> map_of storedEnvironments (metric_envKey m) = None
           then calls s1 = calls s @ [CallDelMetric k]
                \<and> logs s1 = logs s @ [metric_log_line m ''non-existent-environment'']
                \<and> metrics s1 = AList.delete k (metrics s)
           else s1 = s)"
proof (cases "label_exists (Metric_Labels m) ''environment''
                \<and> map_of storedEnvironments (metric_envKey m) = None")
  case True
  from delete_metric_flow_nf[OF nf, where k=k and m=m and reason="''non-existent-environment''" and fl=Continue] True
  show ?thesis by (auto simp: gcMetric_environment_def)
next
  case False
  with nf show ?thesis
    by (auto simp: gcMetric_environment_def split: option.splits)
qed

lemma gcMetric_summary:
  assumes nf: "faults s = []"
  shows "(fst (gcMetric storedEnvironments storedRefs k m s) = Continue
          \<or> fst (gcMetric storedEnvironments storedRefs k m s) = Proceed)
       \<and> faults (snd (gcMetric storedEnvironments storedRefs k m s)) = []
       \<and> calls (snd (gcMetric storedEnvironments storedRefs k m s))
           = calls s @ map (\<lambda>reason. CallDelMetric k)
                         (metric_deletions storedEnvironments storedRefs m)
       \<and> logs (snd (gcMetric storedEnvironments storedRefs k m s))
           = logs s @ map (metric_log_line m) (metric_deletions storedEnvironments storedRefs m)
       \<and> metrics (snd (gcMetric storedEnvironments storedRefs k m s))
           = (if metric_deletions storedEnvironments storedRefs m = [] then metrics s
              else AList.delete k (metrics s))"
proof -
  from gcMetric_labels_nf[OF nf, of k m] obtain t1 where
    a: "gcMetric_labels k m s = (Proceed, t1)" and f1: "faults t1 = []"
    and r1: "if labels_malformed m
           then calls t1 = calls s @ [CallDelMetric k]
                \<and> logs t1 = logs s
                     @ [metric_log_line m ''project-or-ref-and-environment-label-undefined'']
                \<and> metrics t1 = AList.delete k (metrics s)
           else t1 = s"
    by blast
  have c1: "calls t1 = calls s @ map (\<lambda>reason. CallDelMetric k)
              (if labels_malformed m then [''project-or-ref-and-environment-label-undefined''] else [])"
    and l1: "logs t1 = logs s @ map (metric_log_line m)
              (if labels_malformed m then [''project-or-ref-and-environment-label-undefined''] else [])"
    and m1: "metrics t1 = (if labels_malformed m then AList.delete k (metrics s) else metrics s)"
    using r1 by (auto split: if_splits)
  from gcMetric_ref_nf[OF f1, of storedRefs k m] obtain f2 t2 where
    b: "gcMetric_ref storedRefs k m t1 = (f2, t2)" and f2: "faults t2 = []"
    and r2: "if label_exists (Metric_Labels m) ''ref'' \<and> ref_label_stale storedRefs m
           then f2 = Continue \<and> calls t2 = calls t1 @ [CallDelMetric k]
                \<and> logs t2 = logs t1 @ [metric_log_line m (ref_label_reason storedRefs m)]
                \<and> metrics t2 = AList.delete k (metrics t1)
           else f2 = Proceed \<and> t2 = t1"
    by blast
  show ?thesis
  proof (cases "label_exists (Metric_Labels m) ''ref'' \<and> ref_label_stale storedRefs m")
    case True
    with r2 have "f2 = Continue" "calls t2 = calls t1 @ [CallDelMetric k]"
      "logs t2 = logs t1 @ [metric_log_line m (ref_label_reason storedRefs m)]"
      "metrics t2 = AList.delete k (metrics t1)" by simp_all
    moreover from this a b have "gcMetric storedEnvironments storedRefs k m s = (Continue, t2)"
      by (simp add: gcMetric_def)
    ultimately show ?thesis
      using True f2 c1 l1 m1
      by (simp add: metric_deletions_def AList.delete_idem)
  next
    case False
    with r2 have p2: "f2 = Proceed" "t2 = t1" by simp_all
    from gcMetric_environment_nf[OF f1, of storedEnvironments k m] obtain f3 t3 where
      c: "gcMetric_environment storedEnvironments k m t1 = (f3, t3)" and f3: "faults t3 = []"
      and fl3: "f3 = Continue \<or> f3 = Proceed"
      and r3: "if label_exists (Metric_Labels m) ''environment''
                \<and> map_of storedEnvironments (metric_envKey m) = None
           then calls t3 = calls t1 @ [CallDelMetric k]
                \<and> logs t3 = logs t1 @ [metric_log_line m ''non-existent-environment'']
                \<and> metrics t3 = AList.delete k (metrics t1)
           else t3 = t1"
      by blast
    from a b c p2 have g: "gcMetric storedEnvironments storedRefs k m s = (f3, t3)"
      by (simp add: gcMetric_def)
    show ?thesis
    proof (cases "label_exists (Metric_Labels m) ''environment''
                \<and> map_of storedEnvironments (metric_envKey m) = None")
      case True
      with r3 have "calls t3 = calls t1 @ [CallDelMetric k]"
        "logs t3 = logs t1 @ [metric_log_line m ''non-existent-environment'']"
        "metrics t3 = AList.delete k (metrics t1)" by simp_all
      with g fl3 f3 c1 l1 m1 False True show ?thesis
        by (auto simp: metric_deletions_def AList.delete_idem)
    next
      case e: False
      with r3 have "t3 = t1" by simp
      with g fl3 f1 c1 l1 m1 False e show ?thesis
        by (auto simp: metric_deletions_def)
    qed
  qed
qed

lemma metrics_calls_Nil: "metrics_calls E R [] = []"
  by (simp add: metrics_calls_def)

lemma metrics_calls_Cons:
  "metrics_calls E R ((k, m) # xs)
   = map (\<lambda>reason. CallDelMetric k) (metric_deletions E R m) @ metrics_calls E R xs"
  by (simp add: metrics_calls_def)

lemma metrics_calls_append:
  "metrics_calls E R (xs @ ys) = metrics_calls E R xs @ metrics_calls E R ys"
  by (simp add: metrics_calls_def)

lemma metrics_logs_Nil: "metrics_logs E R [] = []"
  by (simp add: metrics_logs_def)

lemma metrics_logs_Cons:
  "metrics_logs E R ((k, m) # xs)
   = map (metric_log_line m) (metric_deletions E R m) @ metrics_logs E R xs"
  by (simp add: metrics_logs_def)

lemma metrics_logs_append:
  "metrics_logs E R (xs @ ys) = metrics_logs E R xs @ metrics_logs E R ys"
  by (simp add: metrics_logs_def)

lemma gcMetrics_loop_summary:
  assumes "faults s = []"
  shows "fst (gcMetrics_loop E R xs s) = Return None
       \<and> calls (snd (gcMetrics_loop E R xs s)) = calls s @ metrics_calls E R xs
       \<and> logs (snd (gcMetrics_loop E R xs s)) = logs s @ metrics_logs E R xs
       \<and> metrics (snd (gcMetrics_loop E R xs s))
           = foldl (\<lambda>ms (k, m). if metric_deletions E R m = [] then ms else AList.delete k ms)
               (metrics s) xs"
  using assms
proof (induction xs arbitrary: s)
  case Nil
  then show ?case by (simp add: metrics_calls_Nil metrics_logs_Nil)
next
  case (Cons x xs)
  obtain k0 m0 where x: "x = (k0, m0)" by (cases x)
  obtain fl s1 where b: "gcMetric E R k0 m0 s = (fl, s1)" by (cases "gcMetric E R k0 m0 s")
  from gcMetric_summary[OF Cons.prems, of E R k0 m0] b
  have fl: "fl = Continue \<or> fl = Proceed" and f1: "faults s1 = []"
    and c1: "calls s1 = calls s @ map (\<lambda>reason. CallDelMetric k0) (metric_deletions E R m0)"
    and l1: "logs s1 = logs s @ map (metric_log_line m0) (metric_deletions E R m0)"
    and m1: "metrics s1 = (if metric_deletions E R m0 = [] then metrics s
              else AList.delete k0 (metrics s))"
    by simp_all
  have step: "gcMetrics_loop E R (x # xs) s = gcMetrics_loop E R xs s1"
    using fl by (auto simp: x b)
  from Cons.IH[OF f1] show ?case
    unfolding step by (simp add: x c1 l1 m1 metrics_calls_Cons metrics_logs_Cons)
qed

lemma map_of_metrics_foldl:
  "map_of (foldl (\<lambda>ms (k, m). if P m then ms else AList.delete k ms) ms xs) k =
     (if \<exists>m. (k, m) \<in> set xs \<and> \<not> P m then None else map_of ms k)"
proof (induction xs arbitrary: ms)
  case Nil
  then show ?case by simp
next
  case (Cons x xs)
  obtain k0 m0 where x: "x = (k0, m0)" by (cases x)
  show ?case
    unfolding x foldl_Cons prod.case Cons.IH
    by (auto simp: AList.delete_conv')
qed

lemma garbageCollectMetrics_run:
  assumes "faults s = []"
  shows "garbageCollectMetrics s =
     gcMetrics_loop (environments s) (refs s) (metrics s)
       (s\<lparr>calls := calls s @ [CallEnvironments, CallRefs, CallMetrics]\<rparr>)"
  using assms
  by (simp add: garbageCollectMetrics_def store_Environments_def store_Refs_def store_Metrics_def
      store_do_ok)

lemma garbageCollectMetrics_summary:
  assumes "faults s = []"
  shows "fst (garbageCollectMetrics s) = Return None
       \<and> calls (snd (garbageCollectMetrics s))
           = calls s @ [CallEnvironments, CallRefs, CallMetrics]
             @ metrics_calls (environments s) (refs s) (metrics s)
       \<and> logs (snd (garbageCollectMetrics s))
           = logs s @ metrics_logs (environments s) (refs s) (metrics s)
       \<and> (\<forall>k. map_of (metrics (snd (garbageCollectMetrics s))) k
            = (if \<exists>m. (k, m) \<in> set (metrics s)
                      \<and> metric_deletions (environments s) (refs s) m \<noteq> []
               then None else map_of (metrics s) k))"
proof -
  let ?s1 = "s\<lparr>calls := calls s @ [CallEnvironments, CallRefs, CallMetrics]\<rparr>"
  have nf1: "faults ?s1 = []" using assms by simp
  from gcMetrics_loop_summary[OF nf1, of "environments s" "refs s" "metrics s"]
  show ?thesis
    unfolding garbageCollectMetrics_run[OF assms]
    by (simp add: map_of_metrics_foldl)
qed

lemma ref_label_reason_mem: "ref_label_reason R m \<in> set ref_label_reasons"
  by (simp add: ref_label_reason_def ref_label_reasons_def split: option.splits)

lemma ref_reason_in_deletions:
  assumes "reason \<in> set ref_label_reasons"
  shows "reason \<in> set (metric_deletions E R m)
     \<longleftrightarrow> label_exists (Metric_Labels m) ''ref'' \<and> ref_label_stale R m \<and> reason = ref_label_reason R m"
  using assms
  by (auto simp: metric_deletions_def ref_label_reasons_def)

lemma set_metrics_logs:
  "line \<in> set (metrics_logs E R xs)
   \<longleftrightarrow> (\<exists>k m reason. (k, m) \<in> set xs \<and> reason \<in> set (metric_deletions E R m)
                        \<and> line = metric_log_line m reason)"
  by (auto simp: metrics_logs_def)

lemma metric_log_line_eq:
  "metric_log_line m r = metric_log_line m' r'
   \<longleftrightarrow> Metric_Kind m = Metric_Kind m' \<and> Metric_Labels m = Metric_Labels m' \<and> r = r'"
  by (auto simp: metric_log_line_def)

lemma ref_check_logged_iff:
  assumes nf: "faults s = []" and nl: "logs s = []"
    and d: "distinct (map fst (metrics s))"
    and own: "\<forall>(k, m) \<in> set (metrics s). k = Metric_Key m"
    and mem: "(k, m) \<in> set (metrics s)"
    and l: "label_exists (Metric_Labels m) ''ref''"
  shows "(\<exists>reason \<in> set ref_label_reasons.
            metric_log_line m reason \<in> set (logs (snd (garbageCollectMetrics s))))
         \<longleftrightarrow> ref_label_stale (refs s) m"
proof
  assume "\<exists>reason \<in> set ref_label_reasons.
            metric_log_line m reason \<in> set (logs (snd (garbageCollectMetrics s)))"
  then obtain reason where r: "reason \<in> set ref_label_reasons"
    and "metric_log_line m reason \<in> set (logs (snd (garbageCollectMetrics s)))" by blast
  with garbageCollectMetrics_summary[OF nf] nl
  have "metric_log_line m reason \<in> set (metrics_logs (environments s) (refs s) (metrics s))"
    by simp
  then obtain k' m' reason' where m': "(k', m') \<in> set (metrics s)"
    and r': "reason' \<in> set (metric_deletions (environments s) (refs s) m')"
    and e: "metric_log_line m reason = metric_log_line m' reason'"
    unfolding set_metrics_logs by blast
  from e have same: "Metric_Key m' = Metric_Key m" and rr: "reason' = reason"
    by (simp_all add: metric_log_line_eq Metric_Key_def)
  from own m' have "k' = Metric_Key m'" by fastforce
  moreover from own mem have "k = Metric_Key m" by fastforce
  ultimately have "k' = k" using same by simp
  with d m' mem have "m' = m"
    by (metis map_of_is_SomeI option.inject)
  with r' rr have "reason \<in> set (metric_deletions (environments s) (refs s) m)" by simp
  with r show "ref_label_stale (refs s) m"
    by (simp add: ref_reason_in_deletions)
next
  assume st: "ref_label_stale (refs s) m"
  let ?r = "ref_label_reason (refs s) m"
  have "?r \<in> set (metric_deletions (environments s) (refs s) m)"
    using st l by (simp add: ref_reason_in_deletions[OF ref_label_reason_mem])
  with mem have "metric_log_line m ?r \<in> set (metrics_logs (environments s) (refs s) (metrics s))"
    unfolding set_metrics_logs by blast
  with garbageCollectMetrics_summary[OF nf] nl
  have "metric_log_line m ?r \<in> set (logs (snd (garbageCollectMetrics s)))" by simp
  with ref_label_reason_mem show "\<exists>reason \<in> set ref_label_reasons.
            metric_log_line m reason \<in> set (logs (snd (garbageCollectMetrics s)))" by blast
qed

section \<open>Lemmas on the task queue\<close>

lemma redis_faults_Nil_update: "redis_faults r = [] \<Longrightarrow> r\<lparr>redis_faults := []\<rparr> = r"
  by (cases r) simp

lemma redis_do_ok:
  "redis_faults r = [] \<Longrightarrow> redis_do f r = (case f r of (a, r2) \<Rightarrow> (Inr a, r2))"
  by (simp add: redis_do_def redis_faults_Nil_update)

lemma redis_do_claimed:
  assumes "redis_do f r = (Inr a, r1)"
  shows "(a, r1) = f (r\<lparr>redis_faults := tl (redis_faults r)\<rparr>)"
  using assms
  by (auto simp: redis_do_def Let_def split: list.splits bool.splits prod.splits)

lemma QueueTask_records:
  assumes "QueueTask T wid A r = (Inr True, r1)"
  shows "map_of (tasks r1) (getRedisQueueKey T wid) = Some A"
  using redis_do_claimed[OF assms[unfolded QueueTask_def]]
  by (auto simp: Let_def AList.update_conv' split: option.splits if_splits)

lemma QueueTask_owned:
  assumes "redis_faults r = []" and "map_of (tasks r) (getRedisQueueKey T wid) = Some A"
  shows "QueueTask T wid B r =
     (if keepalive_live r A then (Inr False, r)
      else (Inr True, r\<lparr>tasks := AList.update (getRedisQueueKey T wid) B (tasks r)\<rparr>))"
  using assms by (simp add: QueueTask_def redis_do_ok Let_def)

lemma card_keys_delete:
  assumes "map_of al k \<noteq> None"
  shows "length (remdups (map fst (AList.delete k al))) + 1 = length (remdups (map fst al))"
proof -
  have k: "k \<in> fst ` set al" using assms by (simp add: map_of_eq_None_iff)
  have "fst ` set (AList.delete k al) = fst ` set al - {k}"
    by (auto simp: AList.delete_eq image_iff)
  then have "card (fst ` set (AList.delete k al)) = card (fst ` set al) - 1"
    using k by simp
  moreover have "card (fst ` set al) > 0" using k by (auto simp: card_gt_0_iff)
  ultimately show ?thesis by (simp add: length_remdups_card_conv)
qed

section \<open>The pass over the projects\<close>

text \<open>
  C1. After a run of \<open>garbageCollectProjects\<close> that returns \<open>nil\<close>, a key is in the store
  exactly when it was there before and is the key of a configured project or of a project
  that the listing returned for a wildcard; the project kept under it is unchanged, and
  every other key is gone.
\<close>

theorem garbageCollectProjects_retains_iff:
  assumes "garbageCollectProjects config lp s = (Return None, s')"
  shows "map_of (projects s') k =
     (if k \<in> Project_Key ` (set (Projects config) \<union> set (discovered lp (Wildcards config)))
      then map_of (projects s) k else None)"
proof -
  from assms obtain s1 sp stale where
    a: "store_Projects s = (Inr sp, s1)" and
    b: "delete_wildcards lp (Wildcards config) (delete_keys (Projects config) sp) = Inr stale" and
    c: "delete_stored stale (log_write InfoLevel ''found projects to garbage collect''
                    [(''projects-count'', LogInt (length stale))] s1) = (Return None, s')"
    by (auto simp: garbageCollectProjects_def split: prod.splits sum.splits)
  from a have sp: "sp = projects s" and s1: "projects s1 = projects s"
    by (auto simp: store_Projects_def dest!: store_do_success)
  have st: "map_of stale k =
      (if k \<in> Project_Key ` (set (Projects config) \<union> set (discovered lp (Wildcards config)))
       then None else map_of (projects s) k)"
    using map_of_delete_wildcards[OF b, of k] by (auto simp: map_of_delete_keys sp)
  have mem: "k \<in> fst ` set stale \<longleftrightarrow> map_of stale k \<noteq> None"
    by (metis domIff dom_map_of_conv_image_fst)
  from projects_delete_stored[OF c, of k] show ?thesis
    using st mem s1 by (auto simp: log_write_def)
qed

lemmas scenario_defs = scenario_config_def scenario_ListProjects_def scenario_store_def
  empty_store_def project_ab_def project_cd_def project_ef_def unset_parameters_def

lemmas store_defs = store_do_def store_Projects_def store_DelProject_def store_ProjectExists_def
  store_GetProject_def store_Environments_def store_DelEnvironment_def store_SetEnvironment_def
  store_Refs_def store_DelRef_def store_SetRef_def store_Metrics_def store_DelMetric_def
  store_GetMetric_def store_SetMetric_def log_write_def

theorem garbageCollectProjects_retains_iff_witness:
  "fst (garbageCollectProjects scenario_config scenario_ListProjects scenario_store) = Return None
   \<and> map (map_of (projects (snd (garbageCollectProjects scenario_config scenario_ListProjects
                                   scenario_store))))
        [''a/b'', ''c/d'', ''e/f'']
     = [Some project_ab, None, Some project_ef]"
proof -
  have run: "fst (garbageCollectProjects scenario_config scenario_ListProjects scenario_store)
             = Return None"
    by (simp add: garbageCollectProjects_def scenario_defs store_defs Project_Key_def)
  then have h: "garbageCollectProjects scenario_config scenario_ListProjects scenario_store =
      (Return None, snd (garbageCollectProjects scenario_config scenario_ListProjects scenario_store))"
    by (simp add: prod_eq_iff)
  show ?thesis
    using run garbageCollectProjects_retains_iff [OF h, of "''a/b''"]
      garbageCollectProjects_retains_iff [OF h, of "''c/d''"]
      garbageCollectProjects_retains_iff [OF h, of "''e/f''"]
    by (simp add: scenario_defs discovered_def Project_Key_def)
qed

section \<open>The passes over the environments and the refs\<close>

text \<open>
  C4. With a store that answers every call, where every pattern that the pass compiles is a
  regular expression, \<open>garbageCollectEnvironments\<close> returns \<open>nil\<close> and goes through the
  stored environments with these calls, in this order, for each: it asks whether the owning
  project exists and, if not, deletes the environment and goes on to the next one;
  otherwise it reads the project and, if the name fails its pattern, deletes the
  environment and goes on to the next one; only for an environment that passes both checks
  does it compare the cached fields, and when one differs it writes the environment back
  with both at the current values. Where the keys of the listing are distinct and each
  environment is stored under its own key, the pass leaves of each stored environment what
  \<open>environment_after\<close> says: nothing in the first two cases, the refreshed environment
  otherwise.
\<close>

theorem garbageCollectEnvironments_checks_in_order:
  assumes "faults s = []"
    and "\<forall>(k, env) \<in> set (environments s).
           \<forall>p. map_of (projects s) (Environment_ProjectName env) = Some p \<longrightarrow>
                rc (Pull_Environments_NameRegexp (Project_Parameters p)) \<noteq> None"
    and "distinct (map fst (environments s))"
    and "\<forall>(k, env) \<in> set (environments s). k = Environment_Key env"
  shows "fst (garbageCollectEnvironments rc pp0 s) = Return None
       \<and> calls (snd (garbageCollectEnvironments rc pp0 s))
           = calls s @ CallEnvironments
               # concat (map (\<lambda>(k, env). environment_calls rc (projects s) k env) (environments s))
       \<and> (\<forall>(k, env) \<in> set (environments s).
             map_of (environments (snd (garbageCollectEnvironments rc pp0 s))) k
             = environment_after rc (projects s) env)"
proof -
  let ?s1 = "s\<lparr>calls := calls s @ [CallEnvironments]\<rparr>"
  have run: "garbageCollectEnvironments rc pp0 s = gcEnvironments_loop rc pp0 (environments s) ?s1"
    using assms(1) by (simp add: garbageCollectEnvironments_def store_Environments_def store_do_ok)
  have nf1: "faults ?s1 = []" using assms(1) by simp
  have v1: "\<forall>(k, env) \<in> set (environments s).
           \<forall>p. map_of (projects ?s1) (Environment_ProjectName env) = Some p \<longrightarrow>
                rc (Pull_Environments_NameRegexp (Project_Parameters p)) \<noteq> None"
    using assms(2) by simp
  note L = gcEnvironments_loop_summary[OF nf1 v1, of pp0]
  have final: "map_of (environments (snd (garbageCollectEnvironments rc pp0 s))) k
             = environment_after rc (projects s) env" if mem: "(k, env) \<in> set (environments s)" for k env
  proof -
    from mem assms(3) have m: "map_of (environments s) k = Some env" by simp
    from L have "environments (snd (garbageCollectEnvironments rc pp0 s))
        = foldl (\<lambda>es (k, env). environment_apply rc (projects s) k env es) (environments s) (environments s)"
      unfolding run by simp
    then show ?thesis
      by (simp add: map_of_environments_foldl[OF assms(3) assms(4)] m split: option.splits)
  qed
  from L final show ?thesis
    unfolding run by auto
qed

theorem garbageCollectEnvironments_checks_in_order_witness:
  "faults (scenario_store\<lparr>environments := scenario_environments\<rparr>) = []
   \<and> distinct (map fst (environments (scenario_store\<lparr>environments := scenario_environments\<rparr>)))
   \<and> fst (garbageCollectEnvironments literal_compile unset_parameters
            (scenario_store\<lparr>environments := scenario_environments\<rparr>)) = Return None
   \<and> calls (snd (garbageCollectEnvironments literal_compile unset_parameters
            (scenario_store\<lparr>environments := scenario_environments\<rparr>)))
     = [CallEnvironments,
        CallProjectExists ''x/y'', CallDelEnvironment (EnvironmentKey ''x/y'' ''prod''),
        CallProjectExists ''a/b'', CallGetProject ''a/b'',
        CallDelEnvironment (EnvironmentKey ''a/b'' ''dev''),
        CallProjectExists ''a/b'', CallGetProject ''a/b'',
        CallSetEnvironment ((environment_of ''a/b'' ''prod'')
          \<lparr>Environment_OutputSparseStatusMetrics := True, Environment_TagsRegexp := ''.*''\<rparr>),
        CallProjectExists ''e/f'', CallGetProject ''e/f'']
   \<and> map (map_of (environments (snd (garbageCollectEnvironments literal_compile unset_parameters
            (scenario_store\<lparr>environments := scenario_environments\<rparr>)))))
        [EnvironmentKey ''x/y'' ''prod'', EnvironmentKey ''a/b'' ''dev'',
         EnvironmentKey ''a/b'' ''prod'', EnvironmentKey ''e/f'' ''staging'']
     = [None, None,
        Some ((environment_of ''a/b'' ''prod'')
          \<lparr>Environment_OutputSparseStatusMetrics := True, Environment_TagsRegexp := ''.*''\<rparr>),
        Some ((environment_of ''e/f'' ''staging'')\<lparr>Environment_TagsRegexp := ''.*''\<rparr>)]"
proof -
  let ?s = "scenario_store\<lparr>environments := scenario_environments\<rparr>"
  have nf: "faults ?s = []"
    by (simp add: scenario_defs)
  have valid: "\<forall>(k, env) \<in> set (environments ?s).
           \<forall>p. map_of (projects ?s) (Environment_ProjectName env) = Some p \<longrightarrow>
                literal_compile (Pull_Environments_NameRegexp (Project_Parameters p)) \<noteq> None"
    by (simp add: scenario_defs scenario_environments_def environment_of_def literal_compile_def)
  have d: "distinct (map fst (environments ?s))"
    by (simp add: scenario_environments_def)
  have own: "\<forall>(k, env) \<in> set (environments ?s). k = Environment_Key env"
    by (simp add: scenario_environments_def environment_of_def Environment_Key_def)
  note T = garbageCollectEnvironments_checks_in_order [OF nf valid d own, of unset_parameters]
  have E: "environments ?s = scenario_environments" "calls ?s = []"
    "projects ?s = projects scenario_store"
    by (simp_all add: scenario_defs)
  have C: "concat (map (\<lambda>(k, env). environment_calls literal_compile (projects scenario_store) k env)
             scenario_environments)
     = [CallProjectExists ''x/y'', CallDelEnvironment (EnvironmentKey ''x/y'' ''prod''),
        CallProjectExists ''a/b'', CallGetProject ''a/b'',
        CallDelEnvironment (EnvironmentKey ''a/b'' ''dev''),
        CallProjectExists ''a/b'', CallGetProject ''a/b'',
        CallSetEnvironment ((environment_of ''a/b'' ''prod'')
          \<lparr>Environment_OutputSparseStatusMetrics := True, Environment_TagsRegexp := ''.*''\<rparr>),
        CallProjectExists ''e/f'', CallGetProject ''e/f'']"
    by (simp add: scenario_defs scenario_environments_def environment_of_def literal_compile_def
        environment_calls_def)
  have A: "environment_after literal_compile (projects scenario_store) (environment_of ''x/y'' ''prod'')
             = None"
    "environment_after literal_compile (projects scenario_store) (environment_of ''a/b'' ''dev'')
             = None"
    "environment_after literal_compile (projects scenario_store) (environment_of ''a/b'' ''prod'')
             = Some ((environment_of ''a/b'' ''prod'')
          \<lparr>Environment_OutputSparseStatusMetrics := True, Environment_TagsRegexp := ''.*''\<rparr>)"
    "environment_after literal_compile (projects scenario_store)
        ((environment_of ''e/f'' ''staging'')\<lparr>Environment_TagsRegexp := ''.*''\<rparr>)
             = Some ((environment_of ''e/f'' ''staging'')\<lparr>Environment_TagsRegexp := ''.*''\<rparr>)"
    by (simp_all add: scenario_defs environment_of_def literal_compile_def environment_after_def)
  from T have t1: "fst (garbageCollectEnvironments literal_compile unset_parameters ?s) = Return None"
    and t2: "calls (snd (garbageCollectEnvironments literal_compile unset_parameters ?s))
           = calls ?s @ CallEnvironments
               # concat (map (\<lambda>(k, env). environment_calls literal_compile (projects ?s) k env)
                   (environments ?s))"
    and t3: "\<forall>(k, env) \<in> set (environments ?s).
             map_of (environments (snd (garbageCollectEnvironments literal_compile unset_parameters ?s))) k
             = environment_after literal_compile (projects ?s) env"
    by blast+
  from t3 have t4: "map (map_of (environments (snd (garbageCollectEnvironments literal_compile
            unset_parameters ?s))))
        [EnvironmentKey ''x/y'' ''prod'', EnvironmentKey ''a/b'' ''dev'',
         EnvironmentKey ''a/b'' ''prod'', EnvironmentKey ''e/f'' ''staging'']
     = [None, None,
        Some ((environment_of ''a/b'' ''prod'')
          \<lparr>Environment_OutputSparseStatusMetrics := True, Environment_TagsRegexp := ''.*''\<rparr>),
        Some ((environment_of ''e/f'' ''staging'')\<lparr>Environment_TagsRegexp := ''.*''\<rparr>)]"
    unfolding E scenario_environments_def by (simp add: A)
  from t2 have t5: "calls (snd (garbageCollectEnvironments literal_compile unset_parameters ?s))
     = [CallEnvironments,
        CallProjectExists ''x/y'', CallDelEnvironment (EnvironmentKey ''x/y'' ''prod''),
        CallProjectExists ''a/b'', CallGetProject ''a/b'',
        CallDelEnvironment (EnvironmentKey ''a/b'' ''dev''),
        CallProjectExists ''a/b'', CallGetProject ''a/b'',
        CallSetEnvironment ((environment_of ''a/b'' ''prod'')
          \<lparr>Environment_OutputSparseStatusMetrics := True, Environment_TagsRegexp := ''.*''\<rparr>),
        CallProjectExists ''e/f'', CallGetProject ''e/f'']"
    unfolding E C by simp
  from nf d t1 t5 t4 show ?thesis by (intro conjI)
qed

text \<open>
  C5. With a store that answers every call, where every pattern that the pass compiles is a
  regular expression, \<open>garbageCollectRefs\<close> returns \<open>nil\<close> and deletes a stored ref exactly
  when its project is not in the store or its name fails the pattern of the project:
  nothing else enters the decision, the pass has no access to the upstream listing. For a
  ref that passes both checks and has a cached field that differs from the project, the
  pass makes one call of \<open>SetRef\<close>, with all four fields at the current values, and that is
  the ref it leaves in the store; for a ref in sync it makes no such call.
\<close>

theorem garbageCollectRefs_checks_and_refresh:
  assumes "faults s = []"
    and "\<forall>(k, ref) \<in> set (refs s).
           \<forall>p. map_of (projects s) (Ref_ProjectName ref) = Some p \<longrightarrow>
                rc (Pull_Refs_Regexp (Project_Parameters p)) \<noteq> None"
    and "distinct (map fst (refs s))"
    and "\<forall>(k, ref) \<in> set (refs s). k = Ref_Key ref"
  shows "fst (garbageCollectRefs rc pp0 s) = Return None
       \<and> calls (snd (garbageCollectRefs rc pp0 s))
           = calls s @ CallRefs
               # concat (map (\<lambda>(k, ref). ref_calls rc (projects s) k ref) (refs s))
       \<and> (\<forall>(k, ref) \<in> set (refs s).
             map_of (refs (snd (garbageCollectRefs rc pp0 s))) k
             = ref_after rc (projects s) ref)"
proof -
  let ?s1 = "s\<lparr>calls := calls s @ [CallRefs]\<rparr>"
  have run: "garbageCollectRefs rc pp0 s = gcRefs_loop rc pp0 (refs s) ?s1"
    using assms(1) by (simp add: garbageCollectRefs_def store_Refs_def store_do_ok)
  have nf1: "faults ?s1 = []" using assms(1) by simp
  have v1: "\<forall>(k, ref) \<in> set (refs s).
           \<forall>p. map_of (projects ?s1) (Ref_ProjectName ref) = Some p \<longrightarrow>
                rc (Pull_Refs_Regexp (Project_Parameters p)) \<noteq> None"
    using assms(2) by simp
  note L = gcRefs_loop_summary[OF nf1 v1, of pp0]
  have final: "map_of (refs (snd (garbageCollectRefs rc pp0 s))) k
             = ref_after rc (projects s) ref" if mem: "(k, ref) \<in> set (refs s)" for k ref
  proof -
    from mem assms(3) have m: "map_of (refs s) k = Some ref" by simp
    from L have "refs (snd (garbageCollectRefs rc pp0 s))
        = foldl (\<lambda>es (k, ref). ref_apply rc (projects s) k ref es) (refs s) (refs s)"
      unfolding run by simp
    then show ?thesis
      by (simp add: map_of_refs_foldl[OF assms(3) assms(4)] m split: option.splits)
  qed
  from L final show ?thesis
    unfolding run by auto
qed

theorem garbageCollectRefs_checks_and_refresh_witness:
  "faults (scenario_store\<lparr>refs := scenario_refs\<rparr>) = []
   \<and> distinct (map fst (refs (scenario_store\<lparr>refs := scenario_refs\<rparr>)))
   \<and> fst (garbageCollectRefs literal_compile unset_parameters
            (scenario_store\<lparr>refs := scenario_refs\<rparr>)) = Return None
   \<and> calls (snd (garbageCollectRefs literal_compile unset_parameters
            (scenario_store\<lparr>refs := scenario_refs\<rparr>)))
     = [CallRefs,
        CallProjectExists ''x/y'', CallDelRef (RefKey ''branch'' ''x/y'' ''main''),
        CallProjectExists ''a/b'', CallGetProject ''a/b'',
        CallDelRef (RefKey ''branch'' ''a/b'' ''dev''),
        CallProjectExists ''a/b'', CallGetProject ''a/b'',
        CallSetRef ((ref_of ''a/b'' ''main'')
          \<lparr>Ref_OutputSparseStatusMetrics := True, Ref_PullPipelineJobsEnabled := True,
           Ref_PullPipelineVariablesEnabled := False, Ref_PullPipelineVariablesRegexp := ''.*''\<rparr>),
        CallProjectExists ''e/f'', CallGetProject ''e/f'']
   \<and> map (map_of (refs (snd (garbageCollectRefs literal_compile unset_parameters
            (scenario_store\<lparr>refs := scenario_refs\<rparr>)))))
        [RefKey ''branch'' ''x/y'' ''main'', RefKey ''branch'' ''a/b'' ''dev'',
         RefKey ''branch'' ''a/b'' ''main'', RefKey ''branch'' ''e/f'' ''main'']
     = [None, None,
        Some ((ref_of ''a/b'' ''main'')
          \<lparr>Ref_OutputSparseStatusMetrics := True, Ref_PullPipelineJobsEnabled := True,
           Ref_PullPipelineVariablesEnabled := False, Ref_PullPipelineVariablesRegexp := ''.*''\<rparr>),
        Some ((ref_of ''e/f'' ''main'')\<lparr>Ref_PullPipelineVariablesRegexp := ''.*''\<rparr>)]"
proof -
  let ?s = "scenario_store\<lparr>refs := scenario_refs\<rparr>"
  have nf: "faults ?s = []"
    by (simp add: scenario_defs)
  have valid: "\<forall>(k, ref) \<in> set (refs ?s).
           \<forall>p. map_of (projects ?s) (Ref_ProjectName ref) = Some p \<longrightarrow>
                literal_compile (Pull_Refs_Regexp (Project_Parameters p)) \<noteq> None"
    by (simp add: scenario_defs scenario_refs_def ref_of_def literal_compile_def)
  have d: "distinct (map fst (refs ?s))"
    by (simp add: scenario_refs_def)
  have own: "\<forall>(k, ref) \<in> set (refs ?s). k = Ref_Key ref"
    by (simp add: scenario_refs_def ref_of_def Ref_Key_def)
  note T = garbageCollectRefs_checks_and_refresh [OF nf valid d own, of unset_parameters]
  have E: "refs ?s = scenario_refs" "calls ?s = []" "projects ?s = projects scenario_store"
    by (simp_all add: scenario_defs)
  have C: "concat (map (\<lambda>(k, ref). ref_calls literal_compile (projects scenario_store) k ref)
             scenario_refs)
     = [CallProjectExists ''x/y'', CallDelRef (RefKey ''branch'' ''x/y'' ''main''),
        CallProjectExists ''a/b'', CallGetProject ''a/b'',
        CallDelRef (RefKey ''branch'' ''a/b'' ''dev''),
        CallProjectExists ''a/b'', CallGetProject ''a/b'',
        CallSetRef ((ref_of ''a/b'' ''main'')
          \<lparr>Ref_OutputSparseStatusMetrics := True, Ref_PullPipelineJobsEnabled := True,
           Ref_PullPipelineVariablesEnabled := False, Ref_PullPipelineVariablesRegexp := ''.*''\<rparr>),
        CallProjectExists ''e/f'', CallGetProject ''e/f'']"
    by (simp add: scenario_defs scenario_refs_def ref_of_def literal_compile_def ref_calls_def)
  have A: "ref_after literal_compile (projects scenario_store) (ref_of ''x/y'' ''main'') = None"
    "ref_after literal_compile (projects scenario_store) (ref_of ''a/b'' ''dev'') = None"
    "ref_after literal_compile (projects scenario_store) (ref_of ''a/b'' ''main'')
       = Some ((ref_of ''a/b'' ''main'')
          \<lparr>Ref_OutputSparseStatusMetrics := True, Ref_PullPipelineJobsEnabled := True,
           Ref_PullPipelineVariablesEnabled := False, Ref_PullPipelineVariablesRegexp := ''.*''\<rparr>)"
    "ref_after literal_compile (projects scenario_store)
        ((ref_of ''e/f'' ''main'')\<lparr>Ref_PullPipelineVariablesRegexp := ''.*''\<rparr>)
       = Some ((ref_of ''e/f'' ''main'')\<lparr>Ref_PullPipelineVariablesRegexp := ''.*''\<rparr>)"
    by (simp_all add: scenario_defs ref_of_def literal_compile_def ref_after_def)
  from T have t1: "fst (garbageCollectRefs literal_compile unset_parameters ?s) = Return None"
    and t2: "calls (snd (garbageCollectRefs literal_compile unset_parameters ?s))
           = calls ?s @ CallRefs
               # concat (map (\<lambda>(k, ref). ref_calls literal_compile (projects ?s) k ref) (refs ?s))"
    and t3: "\<forall>(k, ref) \<in> set (refs ?s).
             map_of (refs (snd (garbageCollectRefs literal_compile unset_parameters ?s))) k
             = ref_after literal_compile (projects ?s) ref"
    by blast+
  from t3 have t4: "map (map_of (refs (snd (garbageCollectRefs literal_compile unset_parameters ?s))))
        [RefKey ''branch'' ''x/y'' ''main'', RefKey ''branch'' ''a/b'' ''dev'',
         RefKey ''branch'' ''a/b'' ''main'', RefKey ''branch'' ''e/f'' ''main'']
     = [None, None,
        Some ((ref_of ''a/b'' ''main'')
          \<lparr>Ref_OutputSparseStatusMetrics := True, Ref_PullPipelineJobsEnabled := True,
           Ref_PullPipelineVariablesEnabled := False, Ref_PullPipelineVariablesRegexp := ''.*''\<rparr>),
        Some ((ref_of ''e/f'' ''main'')\<lparr>Ref_PullPipelineVariablesRegexp := ''.*''\<rparr>)]"
    unfolding E scenario_refs_def by (simp add: A)
  from t2 have t5: "calls (snd (garbageCollectRefs literal_compile unset_parameters ?s))
     = [CallRefs,
        CallProjectExists ''x/y'', CallDelRef (RefKey ''branch'' ''x/y'' ''main''),
        CallProjectExists ''a/b'', CallGetProject ''a/b'',
        CallDelRef (RefKey ''branch'' ''a/b'' ''dev''),
        CallProjectExists ''a/b'', CallGetProject ''a/b'',
        CallSetRef ((ref_of ''a/b'' ''main'')
          \<lparr>Ref_OutputSparseStatusMetrics := True, Ref_PullPipelineJobsEnabled := True,
           Ref_PullPipelineVariablesEnabled := False, Ref_PullPipelineVariablesRegexp := ''.*''\<rparr>),
        CallProjectExists ''e/f'', CallGetProject ''e/f'']"
    unfolding E C by simp
  from nf d t1 t5 t4 show ?thesis by (intro conjI)
qed

text \<open>
  C10. Both passes compile the pattern of the owning project with \<open>regexp.MustCompile\<close>.
  With a store that answers every call, a pass that meets a stored environment (or ref)
  whose project is in the store with a pattern that is not a regular expression ends in a
  panic, not in a returned error.
\<close>

theorem invalid_pattern_panics:
  assumes "faults s = []"
  shows "((k, env) \<in> set (environments s)
          \<and> map_of (projects s) (Environment_ProjectName env) = Some p
          \<and> rc (Pull_Environments_NameRegexp (Project_Parameters p)) = None
          \<longrightarrow> fst (garbageCollectEnvironments rc pp0 s) = Panic)
       \<and> ((kr, ref) \<in> set (refs s)
          \<and> map_of (projects s) (Ref_ProjectName ref) = Some q
          \<and> rc (Pull_Refs_Regexp (Project_Parameters q)) = None
          \<longrightarrow> fst (garbageCollectRefs rc pp0 s) = Panic)"
proof (intro conjI impI)
  let ?s1 = "s\<lparr>calls := calls s @ [CallEnvironments]\<rparr>"
  assume a: "(k, env) \<in> set (environments s)
          \<and> map_of (projects s) (Environment_ProjectName env) = Some p
          \<and> rc (Pull_Environments_NameRegexp (Project_Parameters p)) = None"
  have "garbageCollectEnvironments rc pp0 s = gcEnvironments_loop rc pp0 (environments s) ?s1"
    using assms by (simp add: garbageCollectEnvironments_def store_Environments_def store_do_ok)
  moreover have "fst (gcEnvironments_loop rc pp0 (environments s) ?s1) = Panic"
    using gcEnvironments_loop_panics[of ?s1 k env "environments s" p rc pp0] a assms by simp
  ultimately show "fst (garbageCollectEnvironments rc pp0 s) = Panic" by simp
next
  let ?s1 = "s\<lparr>calls := calls s @ [CallRefs]\<rparr>"
  assume a: "(kr, ref) \<in> set (refs s)
          \<and> map_of (projects s) (Ref_ProjectName ref) = Some q
          \<and> rc (Pull_Refs_Regexp (Project_Parameters q)) = None"
  have "garbageCollectRefs rc pp0 s = gcRefs_loop rc pp0 (refs s) ?s1"
    using assms by (simp add: garbageCollectRefs_def store_Refs_def store_do_ok)
  moreover have "fst (gcRefs_loop rc pp0 (refs s) ?s1) = Panic"
    using gcRefs_loop_panics[of ?s1 kr ref "refs s" q rc pp0] a assms by simp
  ultimately show "fst (garbageCollectRefs rc pp0 s) = Panic" by simp
qed

theorem invalid_pattern_panics_witness:
  "faults (scenario_store\<lparr>environments := [(EnvironmentKey ''c/d'' ''prod'', environment_of ''c/d'' ''prod'')],
                            refs := [(RefKey ''branch'' ''c/d'' ''main'', ref_of ''c/d'' ''main'')]\<rparr>) = []
   \<and> fst (garbageCollectEnvironments literal_compile unset_parameters
        (scenario_store\<lparr>environments := [(EnvironmentKey ''c/d'' ''prod'', environment_of ''c/d'' ''prod'')],
                        refs := [(RefKey ''branch'' ''c/d'' ''main'', ref_of ''c/d'' ''main'')]\<rparr>)) = Panic
   \<and> fst (garbageCollectRefs literal_compile unset_parameters
        (scenario_store\<lparr>environments := [(EnvironmentKey ''c/d'' ''prod'', environment_of ''c/d'' ''prod'')],
                        refs := [(RefKey ''branch'' ''c/d'' ''main'', ref_of ''c/d'' ''main'')]\<rparr>)) = Panic"
proof -
  let ?s = "scenario_store\<lparr>environments := [(EnvironmentKey ''c/d'' ''prod'', environment_of ''c/d'' ''prod'')],
                            refs := [(RefKey ''branch'' ''c/d'' ''main'', ref_of ''c/d'' ''main'')]\<rparr>"
  have nf: "faults ?s = []"
    by (simp add: scenario_defs)
  show ?thesis
    using nf
      invalid_pattern_panics [OF nf, of "EnvironmentKey ''c/d'' ''prod''"
        "environment_of ''c/d'' ''prod''" project_cd literal_compile unset_parameters
        "RefKey ''branch'' ''c/d'' ''main''" "ref_of ''c/d'' ''main''" project_cd]
    by (simp add: scenario_defs environment_of_def ref_of_def literal_compile_def)
qed

section \<open>The pass over the metrics\<close>


text \<open>
  C2. With a store that answers every call and a listing whose keys are distinct,
  \<open>garbageCollectMetrics\<close> returns \<open>nil\<close> and, of a stored metric that has a \<open>ref\<close> label,
  leaves this: nothing when the key made of its \<open>kind\<close>, \<open>project\<close> and \<open>ref\<close> labels
  resolves to no stored Ref, or the Ref has the jobs disabled and the metric is of one of
  the six job kinds, or the Ref has sparse status metrics, the metric is a job status or a
  status and its value is not 1. When none of the three holds, the checks of the \<open>ref\<close>
  label keep the metric: it is gone only if it has no \<open>project\<close> label or has an
  \<open>environment\<close> label that resolves to no stored Environment, and is otherwise in the
  store, unchanged. Where the log starts empty and each metric is stored under its own
  key, the pass logs a deletion of the metric with one of the reasons of the checks of the
  \<open>ref\<close> label exactly when one of the three conditions holds.
\<close>

theorem garbageCollectMetrics_ref_label:
  assumes "faults s = []"
    and "distinct (map fst (metrics s))"
    and "(k, m) \<in> set (metrics s)"
    and "label_exists (Metric_Labels m) ''ref''"
  shows "fst (garbageCollectMetrics s) = Return None
       \<and> map_of (metrics (snd (garbageCollectMetrics s))) k
           = (if ref_label_stale (refs s) m then None
              else if \<not> label_exists (Metric_Labels m) ''project''
                      \<or> (label_exists (Metric_Labels m) ''environment''
                          \<and> map_of (environments s) (metric_envKey m) = None) then None
              else Some m)
       \<and> (logs s = [] \<and> (\<forall>(k', m') \<in> set (metrics s). k' = Metric_Key m') \<longrightarrow>
            ((\<exists>reason \<in> set ref_label_reasons.
                 metric_log_line m reason \<in> set (logs (snd (garbageCollectMetrics s))))
             \<longleftrightarrow> ref_label_stale (refs s) m))"
proof -
  from assms(2,3) have m: "map_of (metrics s) k = Some m" by simp
  have uniq: "m' = m" if "(k, m') \<in> set (metrics s)" for m'
    using that assms(2) m by (metis map_of_is_SomeI option.inject)
  have "(\<exists>m'. (k, m') \<in> set (metrics s) \<and> metric_deletions (environments s) (refs s) m' \<noteq> [])
        \<longleftrightarrow> metric_deletions (environments s) (refs s) m \<noteq> []"
    using uniq assms(3) by blast
  moreover have "metric_deletions (environments s) (refs s) m \<noteq> []
        \<longleftrightarrow> ref_label_stale (refs s) m \<or> \<not> label_exists (Metric_Labels m) ''project''
              \<or> (label_exists (Metric_Labels m) ''environment''
                          \<and> map_of (environments s) (metric_envKey m) = None)"
    using assms(4) by (simp add: metric_deletions_def labels_malformed_def)
  ultimately have store: "fst (garbageCollectMetrics s) = Return None
       \<and> map_of (metrics (snd (garbageCollectMetrics s))) k
           = (if ref_label_stale (refs s) m then None
              else if \<not> label_exists (Metric_Labels m) ''project''
                      \<or> (label_exists (Metric_Labels m) ''environment''
                          \<and> map_of (environments s) (metric_envKey m) = None) then None
              else Some m)"
    using garbageCollectMetrics_summary[OF assms(1)] m by auto
  have "(\<exists>reason \<in> set ref_label_reasons.
                 metric_log_line m reason \<in> set (logs (snd (garbageCollectMetrics s))))
             \<longleftrightarrow> ref_label_stale (refs s) m"
    if "logs s = [] \<and> (\<forall>(k', m') \<in> set (metrics s). k' = Metric_Key m')"
    using ref_check_logged_iff[OF assms(1) _ assms(2) _ assms(3) assms(4)] that by blast
  with store show ?thesis by blast
qed

theorem garbageCollectMetrics_ref_label_witness:
  "faults scenario_metrics_store = []
   \<and> distinct (map fst (metrics scenario_metrics_store))
   \<and> label_exists (Metric_Labels metric_job_status) ''ref''
   \<and> label_exists (Metric_Labels metric_coverage) ''ref''
   \<and> ref_label_stale (refs scenario_metrics_store) metric_job_status
   \<and> \<not> ref_label_stale (refs scenario_metrics_store) metric_coverage
   \<and> fst (garbageCollectMetrics scenario_metrics_store) = Return None
   \<and> map_of (metrics (snd (garbageCollectMetrics scenario_metrics_store)))
        (Metric_Key metric_job_status) = None
   \<and> map_of (metrics (snd (garbageCollectMetrics scenario_metrics_store)))
        (Metric_Key metric_coverage) = Some metric_coverage
   \<and> (\<exists>reason \<in> set ref_label_reasons.
         metric_log_line metric_job_status reason
         \<in> set (logs (snd (garbageCollectMetrics scenario_metrics_store))))
   \<and> \<not> (\<exists>reason \<in> set ref_label_reasons.
         metric_log_line metric_coverage reason
         \<in> set (logs (snd (garbageCollectMetrics scenario_metrics_store))))"
proof -
  have nf: "faults scenario_metrics_store = []"
    by (simp add: scenario_metrics_store_def empty_store_def)
  have d: "distinct (map fst (metrics scenario_metrics_store))"
    by (simp add: scenario_metrics_store_def Metric_Key_def metric_job_status_def
        metric_coverage_def metric_no_project_def)
  have m: "(Metric_Key metric_job_status, metric_job_status) \<in> set (metrics scenario_metrics_store)"
    "(Metric_Key metric_coverage, metric_coverage) \<in> set (metrics scenario_metrics_store)"
    by (simp_all add: scenario_metrics_store_def)
  have l: "label_exists (Metric_Labels metric_job_status) ''ref''"
    "label_exists (Metric_Labels metric_coverage) ''ref''"
    by (simp_all add: label_exists_def metric_job_status_def metric_coverage_def)
  have st: "ref_label_stale (refs scenario_metrics_store) metric_job_status"
    "\<not> ref_label_stale (refs scenario_metrics_store) metric_coverage"
    by (simp_all add: scenario_metrics_store_def ref_label_stale_def label_value_def ref_of_def
        metric_job_status_def metric_coverage_def)
  have e: "label_exists (Metric_Labels metric_coverage) ''project''"
    "\<not> label_exists (Metric_Labels metric_coverage) ''environment''"
    by (simp_all add: label_exists_def metric_coverage_def)
  have nl: "logs scenario_metrics_store = []
      \<and> (\<forall>(k', m') \<in> set (metrics scenario_metrics_store). k' = Metric_Key m')"
    by (simp add: scenario_metrics_store_def empty_store_def)
  show ?thesis
    using nf d l st e nl
      garbageCollectMetrics_ref_label [OF nf d m(1) l(1)]
      garbageCollectMetrics_ref_label [OF nf d m(2) l(2)]
    by simp
qed



text \<open>
  C9. The deletion of a malformed metric does not end the body of the loop. With a store
  that answers every call, for a stored metric without a \<open>project\<close> label and with a \<open>ref\<close>
  label, the key of the Ref is made with the empty project name, and when no stored Ref
  has that key the pass calls \<open>DelMetric\<close> twice in a row with the key of the metric: once
  for the labels, once more in the checks of the \<open>ref\<close> label, as the two lines that it
  logs say, the second time on a key that is no longer in the store.
\<close>

theorem garbageCollectMetrics_deletes_twice:
  assumes "faults s = []"
    and "metrics s = pre @ (k, m) # post"
    and "\<not> label_exists (Metric_Labels m) ''project''"
    and "label_exists (Metric_Labels m) ''ref''"
    and "map_of (refs s)
           (RefKey (label_value (Metric_Labels m) ''kind'') [] (label_value (Metric_Labels m) ''ref''))
         = None"
  shows "metric_refKey m
         = RefKey (label_value (Metric_Labels m) ''kind'') [] (label_value (Metric_Labels m) ''ref'')
       \<and> fst (garbageCollectMetrics s) = Return None
       \<and> calls (snd (garbageCollectMetrics s))
           = calls s @ [CallEnvironments, CallRefs, CallMetrics]
             @ metrics_calls (environments s) (refs s) pre
             @ [CallDelMetric k, CallDelMetric k]
             @ metrics_calls (environments s) (refs s) post
       \<and> logs (snd (garbageCollectMetrics s))
           = logs s @ metrics_logs (environments s) (refs s) pre
             @ [metric_log_line m ''project-or-ref-and-environment-label-undefined'',
                metric_log_line m ''non-existent-ref'']
             @ metrics_logs (environments s) (refs s) post
       \<and> map_of (metrics (snd (garbageCollectMetrics s))) k = None"
proof -
  have key: "metric_refKey m
         = RefKey (label_value (Metric_Labels m) ''kind'') [] (label_value (Metric_Labels m) ''ref'')"
    using assms(3) by (simp add: metric_refKey_eq label_value_missing)
  have stale: "ref_label_stale (refs s) m"
    using assms(3,5) by (simp add: ref_label_stale_def label_value_missing)
  have "ref_label_reason (refs s) m = ''non-existent-ref''"
    using assms(3,5) by (simp add: ref_label_reason_def label_value_missing)
  then have two: "metric_deletions (environments s) (refs s) m
      = [''project-or-ref-and-environment-label-undefined'', ''non-existent-ref'']"
    using assms(3,4) stale by (simp add: metric_deletions_def labels_malformed_def)
  have mem: "(k, m) \<in> set (metrics s)" using assms(2) by simp
  from garbageCollectMetrics_summary[OF assms(1)] key two mem show ?thesis
    unfolding assms(2) metrics_calls_append metrics_calls_Cons metrics_logs_append metrics_logs_Cons
    by auto
qed

theorem garbageCollectMetrics_deletes_twice_witness:
  "faults scenario_metrics_store = []
   \<and> \<not> label_exists (Metric_Labels metric_no_project) ''project''
   \<and> label_exists (Metric_Labels metric_no_project) ''ref''
   \<and> metric_refKey metric_no_project = RefKey [] [] ''main''
   \<and> fst (garbageCollectMetrics scenario_metrics_store) = Return None
   \<and> calls (snd (garbageCollectMetrics scenario_metrics_store))
     = [CallEnvironments, CallRefs, CallMetrics,
        CallDelMetric (Metric_Key metric_job_status),
        CallDelMetric (Metric_Key metric_no_project), CallDelMetric (Metric_Key metric_no_project)]
   \<and> logs (snd (garbageCollectMetrics scenario_metrics_store))
     = [metric_log_line metric_job_status ''jobs-metrics-disabled-on-project-ref'',
        metric_log_line metric_no_project ''project-or-ref-and-environment-label-undefined'',
        metric_log_line metric_no_project ''non-existent-ref'']"
proof -
  have nf: "faults scenario_metrics_store = []"
    by (simp add: scenario_metrics_store_def empty_store_def)
  have ms: "metrics scenario_metrics_store
      = [(Metric_Key metric_job_status, metric_job_status),
         (Metric_Key metric_coverage, metric_coverage)]
        @ (Metric_Key metric_no_project, metric_no_project) # []"
    by (simp add: scenario_metrics_store_def)
  have l: "\<not> label_exists (Metric_Labels metric_no_project) ''project''"
    "label_exists (Metric_Labels metric_no_project) ''ref''"
    by (simp_all add: label_exists_def metric_no_project_def)
  have r: "map_of (refs scenario_metrics_store)
           (RefKey (label_value (Metric_Labels metric_no_project) ''kind'') []
              (label_value (Metric_Labels metric_no_project) ''ref'')) = None"
    by (simp add: scenario_metrics_store_def label_value_def metric_no_project_def)
  have cs: "metrics_calls (environments scenario_metrics_store) (refs scenario_metrics_store)
        [(Metric_Key metric_job_status, metric_job_status),
         (Metric_Key metric_coverage, metric_coverage)]
      = [CallDelMetric (Metric_Key metric_job_status)]"
    "metrics_logs (environments scenario_metrics_store) (refs scenario_metrics_store)
        [(Metric_Key metric_job_status, metric_job_status),
         (Metric_Key metric_coverage, metric_coverage)]
      = [metric_log_line metric_job_status ''jobs-metrics-disabled-on-project-ref'']"
    by (simp_all add: metrics_calls_def metrics_logs_def metric_deletions_def labels_malformed_def
        ref_label_stale_def ref_label_reason_def label_exists_def label_value_def
        scenario_metrics_store_def empty_store_def ref_of_def metric_job_status_def
        metric_coverage_def)
  show ?thesis
    using nf l cs garbageCollectMetrics_deletes_twice [OF nf ms l r]
    by (simp add: metrics_calls_def metrics_logs_def label_value_def metric_no_project_def
        scenario_metrics_store_def empty_store_def)
qed

section \<open>The accessor wrappers\<close>

text \<open>
  C8. When the call to the store fails, each of \<open>storeGetMetric\<close>, \<open>storeSetMetric\<close> and
  \<open>storeDelMetric\<close> writes one line to the log at the level of errors and returns: the
  metric of the caller and the entities of the store are as before, and what is left of
  the failed call is its record. No wrapper panics, whatever the store answers.
\<close>

theorem wrappers_log_store_errors:
  "(store_GetMetric m s = (Inl err, s1) \<longrightarrow>
      storeGetMetric m s =
        (Return m,
         s\<lparr>faults := tl (faults s), calls := calls s @ [CallGetMetric (Metric_Key m)],
           logs := logs s @ [(ErrorLevel, ''reading metric from the store'',
                              metricLogFields m @ [(''error'', LogError err)])]\<rparr>))
   \<and> (store_SetMetric m s = (Inl err, s1) \<longrightarrow>
      storeSetMetric m s =
        (Return (),
         s\<lparr>faults := tl (faults s), calls := calls s @ [CallSetMetric m],
           logs := logs s @ [(ErrorLevel, ''writing metric in the store'',
                              metricLogFields m @ [(''error'', LogError err)])]\<rparr>))
   \<and> (store_DelMetric (Metric_Key m) s = (Inl err, s1) \<longrightarrow>
      storeDelMetric m s =
        (Return (),
         s\<lparr>faults := tl (faults s), calls := calls s @ [CallDelMetric (Metric_Key m)],
           logs := logs s @ [(ErrorLevel, ''deleting metric from the store'',
                              metricLogFields m @ [(''error'', LogError err)])]\<rparr>))
   \<and> fst (storeGetMetric m s) \<noteq> Panic
   \<and> fst (storeSetMetric m s) \<noteq> Panic
   \<and> fst (storeDelMetric m s) \<noteq> Panic"
proof (intro conjI impI)
  assume a: "store_GetMetric m s = (Inl err, s1)"
  from store_do_cases[OF a[unfolded store_GetMetric_def]]
  have "s1 = s\<lparr>faults := tl (faults s), calls := calls s @ [CallGetMetric (Metric_Key m)]\<rparr>"
    by auto
  with a show "storeGetMetric m s =
        (Return m,
         s\<lparr>faults := tl (faults s), calls := calls s @ [CallGetMetric (Metric_Key m)],
           logs := logs s @ [(ErrorLevel, ''reading metric from the store'',
                              metricLogFields m @ [(''error'', LogError err)])]\<rparr>)"
    by (simp add: storeGetMetric_def log_write_def)
next
  assume a: "store_SetMetric m s = (Inl err, s1)"
  from store_do_cases[OF a[unfolded store_SetMetric_def]]
  have "s1 = s\<lparr>faults := tl (faults s), calls := calls s @ [CallSetMetric m]\<rparr>"
    by auto
  with a show "storeSetMetric m s =
        (Return (),
         s\<lparr>faults := tl (faults s), calls := calls s @ [CallSetMetric m],
           logs := logs s @ [(ErrorLevel, ''writing metric in the store'',
                              metricLogFields m @ [(''error'', LogError err)])]\<rparr>)"
    by (simp add: storeSetMetric_def log_write_def)
next
  assume a: "store_DelMetric (Metric_Key m) s = (Inl err, s1)"
  from store_do_cases[OF a[unfolded store_DelMetric_def]]
  have "s1 = s\<lparr>faults := tl (faults s), calls := calls s @ [CallDelMetric (Metric_Key m)]\<rparr>"
    by auto
  with a show "storeDelMetric m s =
        (Return (),
         s\<lparr>faults := tl (faults s), calls := calls s @ [CallDelMetric (Metric_Key m)],
           logs := logs s @ [(ErrorLevel, ''deleting metric from the store'',
                              metricLogFields m @ [(''error'', LogError err)])]\<rparr>)"
    by (simp add: storeDelMetric_def log_write_def)
next
  show "fst (storeGetMetric m s) \<noteq> Panic"
    by (simp add: storeGetMetric_def split: prod.splits sum.splits)
next
  show "fst (storeSetMetric m s) \<noteq> Panic"
    by (simp add: storeSetMetric_def split: prod.splits sum.splits)
next
  show "fst (storeDelMetric m s) \<noteq> Panic"
    by (simp add: storeDelMetric_def split: prod.splits sum.splits)
qed

theorem wrappers_log_store_errors_witness:
  "store_SetMetric metric_job_status (empty_store\<lparr>faults := [True]\<rparr>)
     = (Inl StoreError, empty_store\<lparr>calls := [CallSetMetric metric_job_status]\<rparr>)
   \<and> store_GetMetric metric_job_status (empty_store\<lparr>faults := [True]\<rparr>)
     = (Inl StoreError, empty_store\<lparr>calls := [CallGetMetric (Metric_Key metric_job_status)]\<rparr>)
   \<and> store_DelMetric (Metric_Key metric_job_status) (empty_store\<lparr>faults := [True]\<rparr>)
     = (Inl StoreError, empty_store\<lparr>calls := [CallDelMetric (Metric_Key metric_job_status)]\<rparr>)
   \<and> storeSetMetric metric_job_status (empty_store\<lparr>faults := [True]\<rparr>)
     = (Return (),
        empty_store\<lparr>calls := [CallSetMetric metric_job_status],
          logs := [(ErrorLevel, ''writing metric in the store'',
                    metricLogFields metric_job_status @ [(''error'', LogError StoreError)])]\<rparr>)
   \<and> fst (storeGetMetric metric_job_status (empty_store\<lparr>faults := [True]\<rparr>)) = Return metric_job_status
   \<and> fst (storeDelMetric metric_job_status (empty_store\<lparr>faults := [True]\<rparr>)) = Return ()"
proof -
  let ?s = "empty_store\<lparr>faults := [True]\<rparr>"
  have a: "store_SetMetric metric_job_status ?s
     = (Inl StoreError, empty_store\<lparr>calls := [CallSetMetric metric_job_status]\<rparr>)"
    by (simp add: store_defs empty_store_def)
  have b: "store_GetMetric metric_job_status ?s
     = (Inl StoreError, empty_store\<lparr>calls := [CallGetMetric (Metric_Key metric_job_status)]\<rparr>)"
    by (simp add: store_defs empty_store_def)
  have c: "store_DelMetric (Metric_Key metric_job_status) ?s
     = (Inl StoreError, empty_store\<lparr>calls := [CallDelMetric (Metric_Key metric_job_status)]\<rparr>)"
    by (simp add: store_defs empty_store_def)
  show ?thesis
    using a b c
      wrappers_log_store_errors [of metric_job_status ?s StoreError
        "empty_store\<lparr>calls := [CallSetMetric metric_job_status]\<rparr>"]
      wrappers_log_store_errors [of metric_job_status ?s StoreError
        "empty_store\<lparr>calls := [CallGetMetric (Metric_Key metric_job_status)]\<rparr>"]
      wrappers_log_store_errors [of metric_job_status ?s StoreError
        "empty_store\<lparr>calls := [CallDelMetric (Metric_Key metric_job_status)]\<rparr>"]
    by (simp add: empty_store_def)
qed


section \<open>The tests of the backend\<close>

text \<open>The tests of \<open>pkg/store/redis_test.go\<close> whose values are all in the test file, run on
  the two models: the accessors of the metrics and of the environments on the store, the
  keepalives and the queue on the networked backend.\<close>

lemma TestRedisMetricFunctions:
  "fst (store_Metrics
          (snd (store_SetMetric
                  \<lparr>Metric_Kind = MetricKindCoverage, Metric_Labels = [(''foo'', ''bar'')],
                   Metric_Value = Finite 5\<rparr> empty_store)))
     = Inr [(MetricKey MetricKindCoverage [(''foo'', ''bar'')],
             \<lparr>Metric_Kind = MetricKindCoverage, Metric_Labels = [(''foo'', ''bar'')],
              Metric_Value = Finite 5\<rparr>)]
   \<and> fst (store_GetMetric
          \<lparr>Metric_Kind = MetricKindCoverage, Metric_Labels = [(''foo'', ''bar'')],
           Metric_Value = Finite 0\<rparr>
          (snd (store_SetMetric
                  \<lparr>Metric_Kind = MetricKindCoverage, Metric_Labels = [(''foo'', ''bar'')],
                   Metric_Value = Finite 5\<rparr> empty_store)))
     = Inr \<lparr>Metric_Kind = MetricKindCoverage, Metric_Labels = [(''foo'', ''bar'')],
            Metric_Value = Finite 5\<rparr>
   \<and> fst (store_GetMetric
          \<lparr>Metric_Kind = MetricKindCoverage, Metric_Labels = [(''foo'', ''bar'')],
           Metric_Value = Finite 0\<rparr>
          (snd (store_DelMetric (MetricKey MetricKindCoverage [(''foo'', ''bar'')])
             (snd (store_SetMetric
                     \<lparr>Metric_Kind = MetricKindCoverage, Metric_Labels = [(''foo'', ''bar'')],
                      Metric_Value = Finite 5\<rparr> empty_store)))))
     = Inr \<lparr>Metric_Kind = MetricKindCoverage, Metric_Labels = [(''foo'', ''bar'')],
            Metric_Value = Finite 0\<rparr>"
  by (simp add: store_defs empty_store_def Metric_Key_def)

lemma TestRedisEnvironmentFunctions:
  "map_option Environment_ExternalURL
     (map_of (environments
        (snd (store_SetEnvironment
                \<lparr>Environment_ProjectName = ''foo'', Environment_Name = [], Environment_ID = 1,
                 Environment_ExternalURL = ''bar'', Environment_OutputSparseStatusMetrics = False,
                 Environment_TagsRegexp = []\<rparr> empty_store)))
        (Environment_Key
           \<lparr>Environment_ProjectName = ''foo'', Environment_Name = [], Environment_ID = 1,
            Environment_ExternalURL = [], Environment_OutputSparseStatusMetrics = False,
            Environment_TagsRegexp = []\<rparr>))
     = Some ''bar''
   \<and> environments
        (snd (store_DelEnvironment (EnvironmentKey ''foo'' [])
           (snd (store_SetEnvironment
                   \<lparr>Environment_ProjectName = ''foo'', Environment_Name = [], Environment_ID = 1,
                    Environment_ExternalURL = ''bar'', Environment_OutputSparseStatusMetrics = False,
                    Environment_TagsRegexp = []\<rparr> empty_store))))
     = []"
  by (simp add: store_defs empty_store_def Environment_Key_def)

lemmas redis_defs = redis_do_def SetKeepalive_def KeepaliveExists_def QueueTask_def UnqueueTask_def
  CurrentlyQueuedTasksCount_def ExecutedTasksCount_def newTestRedisStore_def FastForward_def
  keepalive_live_def getRedisQueueKey_def getRedisKeepaliveKey_def TaskTypePullMetrics_def
  Second_def Let_def

lemma TestGetRedisKeepaliveKey: "getRedisKeepaliveKey ''foo'' = ''keepalive:foo''"
  by (simp add: getRedisKeepaliveKey_def)

lemma TestGetRedisQueueKey:
  "getRedisQueueKey TaskTypeGarbageCollectEnvironments ''foo''
   = ''task:GarbageCollectEnvironments:foo''"
  by (simp add: getRedisQueueKey_def TaskTypeGarbageCollectEnvironments_def)

lemma TestRedisKeepalive:
  "fst (SetKeepalive ''u'' Second newTestRedisStore) = Inr True
   \<and> fst (KeepaliveExists ''u'' (snd (SetKeepalive ''u'' Second newTestRedisStore))) = Inr True
   \<and> fst (KeepaliveExists ''u''
        (FastForward (2 * Second) (snd (SetKeepalive ''u'' Second newTestRedisStore)))) = Inr False"
  by (simp add: redis_defs)

lemma TestRedisQueueTask:
  "fst (QueueTask TaskTypePullMetrics ''foo'' ''controller1''
          (snd (SetKeepalive ''controller1'' Second newTestRedisStore))) = Inr True
   \<and> fst (QueueTask TaskTypePullMetrics ''foo'' ''controller2'' queued_by_controller1) = Inr False
   \<and> fst (QueueTask TaskTypePullMetrics ''foo'' ''controller2''
          (FastForward (2 * Second)
             (snd (QueueTask TaskTypePullMetrics ''foo'' ''controller2'' queued_by_controller1))))
     = Inr True"
  by (simp add: queued_by_controller1_def redis_defs)

lemma TestRedisUnqueueTask:
  "fst (ExecutedTasksCount (snd (QueueTask TaskTypePullMetrics ''foo'' [] newTestRedisStore)))
     = Inr 0
   \<and> fst (UnqueueTask TaskTypePullMetrics ''foo''
          (snd (QueueTask TaskTypePullMetrics ''foo'' [] newTestRedisStore))) = Inr ()
   \<and> fst (ExecutedTasksCount
        (snd (UnqueueTask TaskTypePullMetrics ''foo''
               (snd (QueueTask TaskTypePullMetrics ''foo'' [] newTestRedisStore))))) = Inr 1"
  by (simp add: redis_defs)

lemma TestRedisCurrentlyQueuedTasksCount:
  "fst (CurrentlyQueuedTasksCount
          (snd (QueueTask TaskTypePullMetrics ''baz'' []
             (snd (QueueTask TaskTypePullMetrics ''bar'' []
                (snd (QueueTask TaskTypePullMetrics ''foo'' [] newTestRedisStore))))))) = Inr 3
   \<and> fst (CurrentlyQueuedTasksCount
          (snd (UnqueueTask TaskTypePullMetrics ''foo''
             (snd (QueueTask TaskTypePullMetrics ''baz'' []
                (snd (QueueTask TaskTypePullMetrics ''bar'' []
                   (snd (QueueTask TaskTypePullMetrics ''foo'' [] newTestRedisStore))))))))) = Inr 2"
  by (simp add: redis_defs)

lemma TestRedisExecutedTasksCount:
  "fst (ExecutedTasksCount (snd (UnqueueTask TaskTypePullMetrics ''foo'' foo_unqueued))) = Inr 1"
  by (simp add: foo_unqueued_def redis_defs)

text \<open>With the counter moved at every call, as section 8 of the spec words it, the last test
  would read 2 where it asserts 1.\<close>

lemma TestRedisExecutedTasksCount_spec_reading:
  "fst (ExecutedTasksCount
          (snd (UnqueueTask_spec TaskTypePullMetrics ''foo''
             (snd (UnqueueTask_spec TaskTypePullMetrics ''foo''
                (snd (QueueTask TaskTypePullMetrics ''bar'' []
                   (snd (QueueTask TaskTypePullMetrics ''foo'' [] newTestRedisStore))))))))) = Inr 2"
  by (simp add: UnqueueTask_spec_def redis_defs)

section \<open>The task queue\<close>

text \<open>
  C3. Once \<open>QueueTask(T, id, A)\<close> has claimed the task, in any later state that still holds
  that entry and answers the call: while the keepalive of A is live, \<open>QueueTask(T, id, B)\<close>
  returns \<open>(false, nil)\<close> and leaves the state as it is; once the keepalive of A has expired,
  it returns \<open>(true, nil)\<close> and the entry records B.
\<close>

theorem QueueTask_live_then_steal:
  assumes "QueueTask T wid A r = (Inr True, r1)"
    and "map_of (tasks r2) (getRedisQueueKey T wid) = map_of (tasks r1) (getRedisQueueKey T wid)"
    and "redis_faults r2 = []"
  shows "(keepalive_live r2 A \<longrightarrow> QueueTask T wid B r2 = (Inr False, r2))
       \<and> (\<not> keepalive_live r2 A \<longrightarrow>
            QueueTask T wid B r2 =
              (Inr True, r2\<lparr>tasks := AList.update (getRedisQueueKey T wid) B (tasks r2)\<rparr>)
            \<and> map_of (tasks (snd (QueueTask T wid B r2))) (getRedisQueueKey T wid) = Some B)"
proof -
  from QueueTask_records[OF assms(1)] assms(2)
  have "map_of (tasks r2) (getRedisQueueKey T wid) = Some A" by simp
  from QueueTask_owned[OF assms(3) this, of B] show ?thesis
    by (simp add: AList.update_conv')
qed

theorem QueueTask_live_then_steal_witness:
  "QueueTask TaskTypePullMetrics ''foo'' ''controller1''
      (snd (SetKeepalive ''controller1'' Second newTestRedisStore))
     = (Inr True, queued_by_controller1)
   \<and> keepalive_live queued_by_controller1 ''controller1''
   \<and> QueueTask TaskTypePullMetrics ''foo'' ''controller2'' queued_by_controller1
     = (Inr False, queued_by_controller1)
   \<and> \<not> keepalive_live (FastForward (2 * Second) queued_by_controller1) ''controller1''
   \<and> fst (QueueTask TaskTypePullMetrics ''foo'' ''controller2''
            (FastForward (2 * Second) queued_by_controller1)) = Inr True
   \<and> map_of (tasks (snd (QueueTask TaskTypePullMetrics ''foo'' ''controller2''
                           (FastForward (2 * Second) queued_by_controller1))))
        (getRedisQueueKey TaskTypePullMetrics ''foo'') = Some ''controller2''"
proof -
  have q: "QueueTask TaskTypePullMetrics ''foo'' ''controller1''
      (snd (SetKeepalive ''controller1'' Second newTestRedisStore))
     = (Inr True, queued_by_controller1)"
    by (simp add: queued_by_controller1_def redis_defs)
  have nf: "redis_faults queued_by_controller1 = []"
    "redis_faults (FastForward (2 * Second) queued_by_controller1) = []"
    by (simp_all add: queued_by_controller1_def redis_defs)
  have same: "map_of (tasks (FastForward (2 * Second) queued_by_controller1))
                (getRedisQueueKey TaskTypePullMetrics ''foo'')
              = map_of (tasks queued_by_controller1) (getRedisQueueKey TaskTypePullMetrics ''foo'')"
    by (simp add: FastForward_def)
  have live: "keepalive_live queued_by_controller1 ''controller1''"
    "\<not> keepalive_live (FastForward (2 * Second) queued_by_controller1) ''controller1''"
    by (simp_all add: queued_by_controller1_def redis_defs)
  show ?thesis
    using q live
      QueueTask_live_then_steal [OF q refl nf(1), of "''controller2''"]
      QueueTask_live_then_steal [OF q same nf(2), of "''controller2''"]
    by (simp add: AList.update_conv')
qed

text \<open>
  C7, as the tests have it. A call of \<open>UnqueueTask\<close> that the store answers returns \<open>nil\<close>.
  When the entry is in the queue, the count of queued tasks goes down by one and the count
  of executed tasks goes up by one; when the key is not in the queue, the call changes
  nothing, neither count moves.
\<close>

theorem UnqueueTask_counts:
  assumes "redis_faults r = []"
  shows "fst (UnqueueTask T wid r) = Inr ()
       \<and> (map_of (tasks r) (getRedisQueueKey T wid) \<noteq> None \<longrightarrow>
            (\<exists>n e. fst (CurrentlyQueuedTasksCount r) = Inr (n + 1)
                 \<and> fst (CurrentlyQueuedTasksCount (snd (UnqueueTask T wid r))) = Inr n
                 \<and> fst (ExecutedTasksCount r) = Inr e
                 \<and> fst (ExecutedTasksCount (snd (UnqueueTask T wid r))) = Inr (e + 1)))
       \<and> (map_of (tasks r) (getRedisQueueKey T wid) = None \<longrightarrow> snd (UnqueueTask T wid r) = r)"
proof (cases "map_of (tasks r) (getRedisQueueKey T wid)")
  case None
  with assms show ?thesis by (simp add: UnqueueTask_def redis_do_ok)
next
  case (Some a)
  then have p: "map_of (tasks r) (getRedisQueueKey T wid) \<noteq> None" by simp
  from assms Some have u: "UnqueueTask T wid r =
      (Inr (), r\<lparr>tasks := AList.delete (getRedisQueueKey T wid) (tasks r),
                  tasksExecutedCount := tasksExecutedCount r + 1\<rparr>)"
    by (simp add: UnqueueTask_def redis_do_ok)
  from assms card_keys_delete[OF p] Some show ?thesis
    unfolding u
    by (auto simp: CurrentlyQueuedTasksCount_def ExecutedTasksCount_def redis_do_ok
        intro!: exI[of _ "length (remdups (map fst (AList.delete (getRedisQueueKey T wid) (tasks r))))"])
qed

theorem UnqueueTask_counts_witness:
  "redis_faults foo_unqueued = []
   \<and> map_of (tasks foo_unqueued) (getRedisQueueKey TaskTypePullMetrics ''foo'') = None
   \<and> map_of (tasks foo_unqueued) (getRedisQueueKey TaskTypePullMetrics ''bar'') \<noteq> None
   \<and> snd (UnqueueTask TaskTypePullMetrics ''foo'' foo_unqueued) = foo_unqueued
   \<and> fst (UnqueueTask TaskTypePullMetrics ''bar'' foo_unqueued) = Inr ()
   \<and> fst (CurrentlyQueuedTasksCount foo_unqueued) = Inr 1
   \<and> fst (CurrentlyQueuedTasksCount (snd (UnqueueTask TaskTypePullMetrics ''bar'' foo_unqueued)))
       = Inr 0
   \<and> fst (ExecutedTasksCount foo_unqueued) = Inr 1
   \<and> fst (ExecutedTasksCount (snd (UnqueueTask TaskTypePullMetrics ''bar'' foo_unqueued))) = Inr 2"
proof -
  have nf: "redis_faults foo_unqueued = []"
    by (simp add: foo_unqueued_def redis_defs)
  have k: "map_of (tasks foo_unqueued) (getRedisQueueKey TaskTypePullMetrics ''foo'') = None"
    "map_of (tasks foo_unqueued) (getRedisQueueKey TaskTypePullMetrics ''bar'') \<noteq> None"
    by (simp_all add: foo_unqueued_def redis_defs)
  have c: "fst (CurrentlyQueuedTasksCount foo_unqueued) = Inr 1"
    "fst (ExecutedTasksCount foo_unqueued) = Inr 1"
    by (simp_all add: foo_unqueued_def redis_defs)
  show ?thesis
    using nf k c
      UnqueueTask_counts [OF nf, of TaskTypePullMetrics "''foo''"]
      UnqueueTask_counts [OF nf, of TaskTypePullMetrics "''bar''"]
    by auto
qed

text \<open>C7, as it is stated, fails on the second call of \<open>TestRedisExecutedTasksCount\<close>: the
  key \<open>foo\<close> is no longer in the queue and the count of executed tasks stays at 1.\<close>

theorem UnqueueTask_unqueued_key_counterexample:
  "fst (ExecutedTasksCount foo_unqueued) = Inr 1
   \<and> fst (UnqueueTask TaskTypePullMetrics ''foo'' foo_unqueued) = Inr ()
   \<and> fst (ExecutedTasksCount (snd (UnqueueTask TaskTypePullMetrics ''foo'' foo_unqueued))) \<noteq> Inr 2"
  by (simp add: foo_unqueued_def redis_defs)



end
